theory Spec2Isabelle
  imports Main
begin

section \<open>Python values and exceptions\<close>

text \<open>
  The configuration files are YAML documents and the records are Python dictionaries
  \<^verbatim>\<open>Dict[str, Any]\<close>. Both are modelled by one datatype of Python values. A dictionary
  is an association list with string keys, in insertion order; lookup takes the first
  binding of a key. \<open>PNone\<close> is Python's \<^verbatim>\<open>None\<close>.
\<close>

datatype pyval =
    PNone
  | PBool bool
  | PInt int
  | PStr string
  | PList "pyval list"
  | PDict "(string \<times> pyval) list"

text \<open>
  The exceptions (all subclasses of \<^verbatim>\<open>Exception\<close>) that the modelled code and its
  libraries raise. \<open>DatabaseConfigError\<close> carries which message it was raised with.
\<close>

datatype cfg_msg =
    NotExists
  | EmptyOrInvalid
  | YamlParse
  | LoadFailed cfg_msg
  | EnvNotFound pyval

datatype error =
    KeyError
  | TypeError
  | AttributeError
  | ValueError
  | IndexError
  | FileNotFoundError
  | YAMLError
  | DatabaseConfigError cfg_msg
  | OperationalError
  | ProgrammingError
  | DataError
  | PoolError

text \<open>Truth value of a Python object, as tested by \<^verbatim>\<open>if not config\<close>.\<close>

fun truthy :: "pyval \<Rightarrow> bool" where
  "truthy PNone = False"
| "truthy (PBool b) = b"
| "truthy (PInt i) = (i \<noteq> 0)"
| "truthy (PStr s) = (s \<noteq> [])"
| "truthy (PList xs) = (xs \<noteq> [])"
| "truthy (PDict m) = (m \<noteq> [])"

text \<open>
  \<^verbatim>\<open>seq[i]\<close> with an integer: positions \<open>0 .. len - 1\<close> from the front, \<open>-len .. -1\<close> from
  the back, and \<^verbatim>\<open>IndexError\<close> for any other integer.
\<close>

definition seq_index :: "'a list \<Rightarrow> int \<Rightarrow> error + 'a" where
  "seq_index xs i =
     (if 0 \<le> i \<and> i < int (length xs) then Inr (xs ! nat i)
      else if i < 0 \<and> - int (length xs) \<le> i then Inr (xs ! nat (int (length xs) + i))
      else Inl IndexError)"

text \<open>
  \<^verbatim>\<open>v[k]\<close>. Dictionaries have string keys only, so another hashable key is never found
  (\<^verbatim>\<open>KeyError\<close>) and an unhashable key raises \<^verbatim>\<open>TypeError\<close>. Lists and strings accept
  integers (and booleans, which are integers); everything else is not subscriptable.
\<close>

fun subscript :: "pyval \<Rightarrow> pyval \<Rightarrow> error + pyval" where
  "subscript (PDict m) (PStr k) = (case map_of m k of None \<Rightarrow> Inl KeyError | Some v \<Rightarrow> Inr v)"
| "subscript (PDict m) (PList ks) = Inl TypeError"
| "subscript (PDict m) (PDict ks) = Inl TypeError"
| "subscript (PDict m) k = Inl KeyError"
| "subscript (PList xs) (PInt i) = seq_index xs i"
| "subscript (PList xs) (PBool b) = seq_index xs (if b then 1 else 0)"
| "subscript (PStr s) (PInt i) = map_sum id (\<lambda>c. PStr [c]) (seq_index s i)"
| "subscript (PStr s) (PBool b) = map_sum id (\<lambda>c. PStr [c]) (seq_index s (if b then 1 else 0))"
| "subscript v k = Inl TypeError"

text \<open>\<^verbatim>\<open>v.get(k, d)\<close>: only dictionaries have the method.\<close>

fun pyget :: "pyval \<Rightarrow> string \<Rightarrow> pyval \<Rightarrow> error + pyval" where
  "pyget (PDict m) k d = (case map_of m k of None \<Rightarrow> Inr d | Some v \<Rightarrow> Inr v)"
| "pyget v k d = Inl AttributeError"

text \<open>Sequencing of two fallible pure steps: the first exception wins.\<close>

definition bindE :: "error + 'a \<Rightarrow> ('a \<Rightarrow> error + 'b) \<Rightarrow> error + 'b" where
  "bindE r f = (case r of Inl e \<Rightarrow> Inl e | Inr x \<Rightarrow> f x)"

section \<open>Program state\<close>

text \<open>
  A file is absent, present but not parsable as YAML, or parses to a value.
\<close>

datatype file_state = Absent | Malformed | Content pyval

text \<open>
  A table of the database: its column names, the columns that carry a comment, and its
  rows. A row stores the values of the inserted columns.
\<close>

record table =
  columns :: "string list"
  described :: "string list"
  rows :: "(string \<times> pyval) list list"

type_synonym tables = "(pyval \<times> table) list"

text \<open>
  The SQL statements the program issues. The source builds them as strings by
  interpolating the table name into an f-string; the model keeps the structure of the
  statement and the interpolated value itself as the table's name, so two names are
  the same table when they are the same value.
\<close>

datatype stmt =
    CreateTableIfNotExists pyval "string list"
  | CommentOnColumn pyval string
  | InsertInto pyval "string list" "(string \<times> pyval) list"

text \<open>
  What happens on connections, in order. A connection handle is the number of the
  acquisition that produced it.
\<close>

datatype event =
    Connected nat
  | PoolCreated
  | GotConn nat
  | Executed nat stmt
  | Committed nat
  | RolledBack nat
  | PutConn nat
  | Closed nat

text \<open>What the insert and table functions print.\<close>

datatype msg =
    TableCreated pyval
  | TableFailed error
  | EmptySkipped
  | ThreadedStart nat nat pyval
  | ThreadFailed nat error
  | ThreadedDone nat pyval
  | ThreadedFailed error
  | NothingToInsert
  | Inserted nat
  | InsertFailed error

datatype pool = ThreadedConnectionPool pyval pyval pyval

type_synonym row = "(string \<times> pyval) list"

text \<open>
  The state: the world outside the program (files, the database server) and the
  attributes of the program's objects. An attribute that holds \<^verbatim>\<open>None\<close> holds \<open>PNone\<close>.
  \<^item> \<open>files\<close>, \<open>reads\<close>: the file system and how many times a file was opened;
  \<^item> \<open>reachable\<close>: the server accepts connections; \<open>row_ok\<close>: the rows that satisfy the
    column types and constraints of the schema;
  \<^item> \<open>committed\<close>: the durable tables; \<open>txn\<close>: the working copy of the open transaction
    of the connection in use;
  \<^item> \<open>loader_path\<close>, \<open>loader_cache\<close>: the module's \<^verbatim>\<open>_config_loader\<close>;
  \<^item> \<open>cm_path\<close>, \<open>cm_cache\<close>: the \<^verbatim>\<open>ConfigManager\<close>;
  \<^item> \<open>dbm_db_config\<close>: \<^verbatim>\<open>DatabaseManager._db_config\<close>;
  \<^item> \<open>cpm_db_config\<close>, \<open>cpm_pool\<close>: the \<^verbatim>\<open>ConnectionPoolManager\<close>.
\<close>

record state =
  files :: "string \<Rightarrow> file_state"
  reads :: nat
  reachable :: bool
  row_ok :: "(string \<times> pyval) list \<Rightarrow> bool"
  committed :: tables
  txn :: "tables option"
  next_conn :: nat
  events :: "event list"
  printed :: "msg list"
  loader_path :: string
  loader_cache :: pyval
  cm_path :: string
  cm_cache :: pyval
  dbm_db_config :: pyval
  cpm_db_config :: pyval
  cpm_pool :: "pool option"

text \<open>
  A method is a function from the state to a result, an exception (\<open>Inl\<close>) or a value
  (\<open>Inr\<close>), and the state it leaves.
\<close>

type_synonym 'a prog = "state \<Rightarrow> (error + 'a) \<times> state"

definition ret :: "'a \<Rightarrow> 'a prog" where
  "ret x s = (Inr x, s)"

definition raise :: "error \<Rightarrow> 'a prog" where
  "raise e s = (Inl e, s)"

definition lift :: "error + 'a \<Rightarrow> 'a prog" where
  "lift r s = (r, s)"

definition andthen :: "'a prog \<Rightarrow> ('a \<Rightarrow> 'b prog) \<Rightarrow> 'b prog" where
  "andthen m f s = (case m s of (Inl e, s') \<Rightarrow> (Inl e, s') | (Inr x, s') \<Rightarrow> f x s')"

text \<open>\<^verbatim>\<open>try: m except Exception as e: h(e)\<close>\<close>

definition catch :: "'a prog \<Rightarrow> (error \<Rightarrow> 'a prog) \<Rightarrow> 'a prog" where
  "catch m h s = (case m s of (Inl e, s') \<Rightarrow> h e s' | (Inr x, s') \<Rightarrow> (Inr x, s'))"

definition emit :: "event \<Rightarrow> unit prog" where
  "emit ev s = (Inr (), s\<lparr>events := events s @ [ev]\<rparr>)"

definition print :: "msg \<Rightarrow> unit prog" where
  "print m s = (Inr (), s\<lparr>printed := printed s @ [m]\<rparr>)"

section \<open>config/sql\_config.py\<close>

text \<open>
  \<^verbatim>\<open>DatabaseConfigLoader._load_yaml_config\<close>. Both \<^verbatim>\<open>DatabaseConfigError\<close>s raised
  inside the \<^verbatim>\<open>try\<close> are caught by its \<^verbatim>\<open>except Exception\<close> and wrapped.
\<close>

definition load_yaml_config :: "pyval prog" where
  "load_yaml_config s =
     (case files s (loader_path s) of
        Absent \<Rightarrow> (Inl (DatabaseConfigError (LoadFailed NotExists)), s)
      | Malformed \<Rightarrow> (Inl (DatabaseConfigError YamlParse), s\<lparr>reads := reads s + 1\<rparr>)
      | Content config \<Rightarrow>
          if \<not> truthy config
          then (Inl (DatabaseConfigError (LoadFailed EmptyOrInvalid)), s\<lparr>reads := reads s + 1\<rparr>)
          else (Inr config, s\<lparr>reads := reads s + 1\<rparr>))"

definition get_config :: "bool \<Rightarrow> pyval prog" where
  "get_config force_reload s =
     (if loader_cache s = PNone \<or> force_reload
      then (case load_yaml_config s of
              (Inl e, s') \<Rightarrow> (Inl e, s')
            | (Inr config, s') \<Rightarrow> (Inr config, s'\<lparr>loader_cache := config\<rparr>))
      else (Inr (loader_cache s), s))"

text \<open>\<^verbatim>\<open>DatabaseConfigLoader.get_current_environment\<close>: only \<^verbatim>\<open>KeyError\<close> is caught.\<close>

definition get_current_environment :: "pyval prog" where
  "get_current_environment =
     andthen (get_config False) (\<lambda>config.
       lift (case bindE (subscript config (PStr ''environment''))
                        (\<lambda>e. subscript e (PStr ''current'')) of
               Inl KeyError \<Rightarrow> Inr (PStr ''development'')
             | r \<Rightarrow> r))"

text \<open>
  \<^verbatim>\<open>DatabaseConfigLoader.get_database_config\<close>; the argument \<open>PNone\<close> is
  \<^verbatim>\<open>environment=None\<close>.
\<close>

definition get_database_config :: "pyval \<Rightarrow> pyval prog" where
  "get_database_config environment =
     andthen (get_config False) (\<lambda>config.
       andthen (if environment = PNone then get_current_environment else ret environment)
         (\<lambda>env.
            lift (case bindE (subscript config (PStr ''database'')) (\<lambda>d. subscript d env) of
                    Inl KeyError \<Rightarrow> Inl (DatabaseConfigError (EnvNotFound env))
                  | r \<Rightarrow> r)))"

text \<open>The module functions; \<^verbatim>\<open>load_config\<close> logs and re-raises.\<close>

definition load_config :: "pyval \<Rightarrow> pyval prog" where
  "load_config environment = catch (get_database_config environment) raise"

definition reload_config :: "unit prog" where
  "reload_config = andthen (get_config True) (\<lambda>_. ret ())"

section \<open>config/config\_manager.py\<close>

definition ConfigManager_load_config :: "pyval prog" where
  "ConfigManager_load_config s =
     (if cm_cache s = PNone
      then (case files s (cm_path s) of
              Absent \<Rightarrow> (Inl FileNotFoundError, s)
            | Malformed \<Rightarrow> (Inl YAMLError, s\<lparr>reads := reads s + 1\<rparr>)
            | Content config \<Rightarrow> (Inr config, s\<lparr>reads := reads s + 1, cm_cache := config\<rparr>))
      else (Inr (cm_cache s), s))"

definition get_table_name :: "pyval prog" where
  "get_table_name =
     andthen ConfigManager_load_config (\<lambda>config.
       lift (bindE (subscript config (PStr ''database''))
                   (\<lambda>d. subscript d (PStr ''table_name''))))"

definition get_log_level :: "pyval prog" where
  "get_log_level =
     andthen ConfigManager_load_config (\<lambda>config.
       lift (bindE (pyget config ''app'' (PDict []))
                   (\<lambda>app. pyget app ''log_level'' (PStr ''INFO''))))"

definition get_batch_size :: "pyval prog" where
  "get_batch_size =
     andthen ConfigManager_load_config (\<lambda>config.
       lift (bindE (pyget config ''app'' (PDict []))
                   (\<lambda>app. pyget app ''batch_size'' (PInt 100))))"

definition get_connection_pool_config :: "pyval prog" where
  "get_connection_pool_config =
     andthen ConfigManager_load_config (\<lambda>config.
       lift (bindE (pyget config ''app'' (PDict []))
                   (\<lambda>app. pyget app ''connection_pool''
                      (PDict [(''min_connections'', PInt 2),
                              (''max_connections'', PInt 10),
                              (''connection_timeout'', PInt 30),
                              (''idle_timeout'', PInt 300)]))))"

definition get_threading_config :: "pyval prog" where
  "get_threading_config =
     andthen ConfigManager_load_config (\<lambda>config.
       lift (bindE (pyget config ''app'' (PDict []))
                   (\<lambda>app. pyget app ''threading''
                      (PDict [(''max_workers'', PInt 4),
                              (''chunk_size'', PInt 1000),
                              (''enable_threading'', PBool False)]))))"

definition is_threading_enabled :: "pyval prog" where
  "is_threading_enabled =
     andthen get_threading_config (\<lambda>threading_config.
       lift (pyget threading_config ''enable_threading'' (PBool False)))"

section \<open>The database client library\<close>

text \<open>
  The operations of psycopg2 that the program calls, reduced to what the program can
  observe. Threads are modelled as running their transactions one after the other, so
  one connection is in use at a time; a connection, once obtained, stays usable.
\<close>

definition working :: "state \<Rightarrow> tables" where
  "working s = (case txn s of None \<Rightarrow> committed s | Some t \<Rightarrow> t)"

definition update_table :: "pyval \<Rightarrow> (table \<Rightarrow> table) \<Rightarrow> tables \<Rightarrow> tables" where
  "update_table name f tbls = map (\<lambda>(n, t). if n = name then (n, f t) else (n, t)) tbls"

text \<open>
  One statement on the working copy. A comment or an insert needs the table and the
  columns to exist; an insert without columns is a syntax error; a row that the schema
  rejects is a data error.
\<close>

fun apply_stmt :: "(row \<Rightarrow> bool) \<Rightarrow> stmt \<Rightarrow> tables \<Rightarrow> error + tables" where
  "apply_stmt ok (CreateTableIfNotExists name cols) tbls =
     (if name \<in> set (map fst tbls) then Inr tbls
      else Inr (tbls @ [(name, \<lparr>columns = cols, described = [], rows = []\<rparr>)]))"
| "apply_stmt ok (CommentOnColumn name col) tbls =
     (case map_of tbls name of
        None \<Rightarrow> Inl ProgrammingError
      | Some t \<Rightarrow>
          if col \<in> set (columns t)
          then Inr (update_table name (\<lambda>t. t\<lparr>described := List.insert col (described t)\<rparr>) tbls)
          else Inl ProgrammingError)"
| "apply_stmt ok (InsertInto name cols r) tbls =
     (case map_of tbls name of
        None \<Rightarrow> Inl ProgrammingError
      | Some t \<Rightarrow>
          if cols = [] \<or> \<not> list_all (\<lambda>c. c \<in> set (columns t)) cols then Inl ProgrammingError
          else if \<not> ok r then Inl DataError
          else Inr (update_table name (\<lambda>t. t\<lparr>rows := rows t @ [r]\<rparr>) tbls))"

text \<open>\<^verbatim>\<open>cursor.execute\<close>, \<^verbatim>\<open>conn.commit\<close>, \<^verbatim>\<open>conn.rollback\<close>, \<^verbatim>\<open>conn.close\<close>, \<^verbatim>\<open>pool.putconn\<close>.\<close>

definition execute :: "nat \<Rightarrow> stmt \<Rightarrow> unit prog" where
  "execute conn st s =
     (case apply_stmt (row_ok s) st (working s) of
        Inl e \<Rightarrow> (Inl e, s\<lparr>txn := Some (working s), events := events s @ [Executed conn st]\<rparr>)
      | Inr tbls \<Rightarrow> (Inr (), s\<lparr>txn := Some tbls, events := events s @ [Executed conn st]\<rparr>))"

definition commit :: "nat \<Rightarrow> unit prog" where
  "commit conn s =
     (Inr (), s\<lparr>committed := working s, txn := None, events := events s @ [Committed conn]\<rparr>)"

definition rollback :: "nat \<Rightarrow> unit prog" where
  "rollback conn s = (Inr (), s\<lparr>txn := None, events := events s @ [RolledBack conn]\<rparr>)"

definition close :: "nat \<Rightarrow> unit prog" where
  "close conn s = (Inr (), s\<lparr>txn := None, events := events s @ [Closed conn]\<rparr>)"

definition putconn :: "nat \<Rightarrow> unit prog" where
  "putconn conn s = (Inr (), s\<lparr>txn := None, events := events s @ [PutConn conn]\<rparr>)"

text \<open>
  \<^verbatim>\<open>psycopg2.connect(**db_config)\<close>: unpacking needs a mapping; the connection is new,
  with no open transaction.
\<close>

definition connect :: "pyval \<Rightarrow> nat prog" where
  "connect db_config s =
     (case db_config of
        PDict kw \<Rightarrow>
          if reachable s
          then (Inr (next_conn s),
                s\<lparr>txn := None, next_conn := next_conn s + 1,
                  events := events s @ [Connected (next_conn s)]\<rparr>)
          else (Inl OperationalError, s)
      | _ \<Rightarrow> (Inl TypeError, s))"

text \<open>\<^verbatim>\<open>pool.ThreadedConnectionPool(minconn=.., maxconn=.., **db_config)\<close> and \<^verbatim>\<open>getconn\<close>.\<close>

definition new_pool :: "pyval \<Rightarrow> pyval \<Rightarrow> pyval \<Rightarrow> pool prog" where
  "new_pool minconn maxconn db_config s =
     (case db_config of
        PDict kw \<Rightarrow>
          if reachable s
          then (Inr (ThreadedConnectionPool minconn maxconn db_config),
                s\<lparr>events := events s @ [PoolCreated]\<rparr>)
          else (Inl OperationalError, s)
      | _ \<Rightarrow> (Inl TypeError, s))"

definition getconn :: "nat prog" where
  "getconn s =
     (if reachable s
      then (Inr (next_conn s),
            s\<lparr>txn := None, next_conn := next_conn s + 1,
              events := events s @ [GotConn (next_conn s)]\<rparr>)
      else (Inl PoolError, s))"

text \<open>An argument that must be an integer (\<^verbatim>\<open>bool\<close> is a subclass of \<^verbatim>\<open>int\<close>).\<close>

definition as_index :: "pyval \<Rightarrow> error + int" where
  "as_index v =
     (case v of PInt i \<Rightarrow> Inr i | PBool b \<Rightarrow> Inr (if b then 1 else 0) | _ \<Rightarrow> Inl TypeError)"

text \<open>
  \<^verbatim>\<open>range(0, n, step)\<close> for a positive step and the slice \<^verbatim>\<open>xs[i:j]\<close> for
  \<open>0 \<le> i \<le> j\<close>.
\<close>

definition py_range :: "nat \<Rightarrow> nat \<Rightarrow> nat list" where
  "py_range n step = map (\<lambda>k. k * step) [0..<(n + step - 1) div step]"

definition slice :: "'a list \<Rightarrow> nat \<Rightarrow> nat \<Rightarrow> 'a list" where
  "slice xs i j = take (j - i) (drop i xs)"

text \<open>
  \<^verbatim>\<open>cursor.mogrify\<close> of the insert statement with the placeholders \<^verbatim>\<open>%(col)s\<close>: every
  column must be a key of the record.
\<close>

definition mogrify :: "pyval \<Rightarrow> string list \<Rightarrow> row \<Rightarrow> error + stmt" where
  "mogrify target cols args =
     (if list_all (\<lambda>c. map_of args c \<noteq> None) cols
      then Inr (InsertInto target cols
                  (map (\<lambda>c. (c, case map_of args c of None \<Rightarrow> PNone | Some v \<Rightarrow> v)) cols))
      else Inl KeyError)"

fun mapE :: "('a \<Rightarrow> error + 'b) \<Rightarrow> 'a list \<Rightarrow> error + 'b list" where
  "mapE f [] = Inr []"
| "mapE f (x # xs) =
     (case f x of
        Inl e \<Rightarrow> Inl e
      | Inr y \<Rightarrow> (case mapE f xs of Inl e \<Rightarrow> Inl e | Inr ys \<Rightarrow> Inr (y # ys)))"

fun run_stmts :: "nat \<Rightarrow> stmt list \<Rightarrow> unit prog" where
  "run_stmts conn [] = ret ()"
| "run_stmts conn (st # sts) = andthen (execute conn st) (\<lambda>_. run_stmts conn sts)"

text \<open>
  \<^verbatim>\<open>execute_batch(cursor, sql, argslist, page_size)\<close>: the records are cut into pages;
  each page is formatted as a whole and then executed. A page size that is not positive
  gives an empty first page, and executing an empty query raises.
\<close>

fun run_pages :: "nat \<Rightarrow> pyval \<Rightarrow> string list \<Rightarrow> row list list \<Rightarrow> unit prog" where
  "run_pages conn target cols [] = ret ()"
| "run_pages conn target cols (page # pages) =
     andthen (lift (mapE (mogrify target cols) page)) (\<lambda>sqls.
       andthen (run_stmts conn sqls) (\<lambda>_. run_pages conn target cols pages))"

definition execute_batch :: "nat \<Rightarrow> pyval \<Rightarrow> string list \<Rightarrow> row list \<Rightarrow> pyval \<Rightarrow> unit prog" where
  "execute_batch conn target cols argslist page_size =
     andthen (lift (as_index page_size)) (\<lambda>n.
       if n \<le> 0 then raise ProgrammingError
       else run_pages conn target cols
              (map (\<lambda>i. slice argslist i (i + nat n)) (py_range (length argslist) (nat n))))"

text \<open>
  \<^verbatim>\<open>ThreadPoolExecutor(max_workers=..)\<close>: \<^verbatim>\<open>None\<close> selects a default number of workers,
  a number that is not positive is refused.
\<close>

definition ThreadPoolExecutor :: "pyval \<Rightarrow> error + unit" where
  "ThreadPoolExecutor max_workers =
     (if max_workers = PNone then Inr ()
      else bindE (as_index max_workers) (\<lambda>w. if w \<le> 0 then Inl ValueError else Inr ()))"

text \<open>
  The order in which the submitted tasks run and complete is not determined by the
  program. It is a parameter: a list of picks, each choosing the next task among those
  that remain. Every list of picks gives a permutation of the tasks, and every
  permutation is given by some list.
\<close>

primrec schedule :: "nat list \<Rightarrow> 'a list \<Rightarrow> 'a list" where
  "schedule [] ts = ts"
| "schedule (p # ps) ts =
     (if ts = [] then []
      else let i = p mod length ts in ts ! i # schedule ps (take i ts @ drop (Suc i) ts))"

text \<open>\<^verbatim>\<open>enumerate(chunks)\<close> is \<^term>\<open>List.enumerate 0 chunks\<close>.\<close>

section \<open>pg\_room.py\<close>

subsection \<open>ConnectionPoolManager\<close>

text \<open>
  \<^verbatim>\<open>_get_db_config\<close> stores the loaded configuration before it formats the log line,
  which reads the keys \<^verbatim>\<open>host\<close> and \<^verbatim>\<open>port\<close>.
\<close>

definition ConnectionPoolManager_get_db_config :: "pyval prog" where
  "ConnectionPoolManager_get_db_config s =
     (if cpm_db_config s = PNone
      then andthen (load_config PNone) (\<lambda>cfg.
             andthen (\<lambda>s. (Inr (), s\<lparr>cpm_db_config := cfg\<rparr>)) (\<lambda>_.
             andthen (lift (subscript cfg (PStr ''host''))) (\<lambda>_.
             andthen (lift (subscript cfg (PStr ''port''))) (\<lambda>_. ret cfg)))) s
      else (Inr (cpm_db_config s), s))"

definition initialize_pool :: "unit prog" where
  "initialize_pool s =
     (if cpm_pool s = None
      then andthen ConnectionPoolManager_get_db_config (\<lambda>db_config.
             andthen get_connection_pool_config (\<lambda>pool_config.
             andthen (lift (subscript pool_config (PStr ''min_connections''))) (\<lambda>minconn.
             andthen (lift (subscript pool_config (PStr ''max_connections''))) (\<lambda>maxconn.
             andthen (new_pool minconn maxconn db_config) (\<lambda>p.
               (\<lambda>s. (Inr (), s\<lparr>cpm_pool := Some p\<rparr>))))))) s
      else (Inr (), s))"

text \<open>
  The context manager \<^verbatim>\<open>get_connection\<close>, applied to the body of the \<^verbatim>\<open>with\<close>
  statement. An exception of the body is thrown into the generator at its \<^verbatim>\<open>yield\<close>:
  the \<^verbatim>\<open>except\<close> clause rolls back and re-raises, then the \<^verbatim>\<open>finally\<close> clause returns
  the connection. When \<^verbatim>\<open>getconn\<close> itself raises there is no connection to release.
\<close>

definition ConnectionPoolManager_get_connection :: "(nat \<Rightarrow> 'a prog) \<Rightarrow> 'a prog" where
  "ConnectionPoolManager_get_connection body =
     andthen initialize_pool (\<lambda>_.
       andthen getconn (\<lambda>conn s.
         case body conn s of
           (Inl e, s') \<Rightarrow> andthen (rollback conn) (\<lambda>_. andthen (putconn conn) (\<lambda>_. raise e)) s'
         | (Inr x, s') \<Rightarrow> andthen (putconn conn) (\<lambda>_. ret x) s'))"

subsection \<open>DatabaseManager\<close>

definition DatabaseManager_get_db_config :: "pyval prog" where
  "DatabaseManager_get_db_config s =
     (if dbm_db_config s = PNone
      then andthen (load_config PNone) (\<lambda>cfg.
             andthen (\<lambda>s. (Inr (), s\<lparr>dbm_db_config := cfg\<rparr>)) (\<lambda>_.
             andthen (lift (subscript cfg (PStr ''host''))) (\<lambda>_.
             andthen (lift (subscript cfg (PStr ''port''))) (\<lambda>_. ret cfg)))) s
      else (Inr (dbm_db_config s), s))"

definition DatabaseManager_get_connection :: "(nat \<Rightarrow> 'a prog) \<Rightarrow> 'a prog" where
  "DatabaseManager_get_connection body =
     andthen DatabaseManager_get_db_config (\<lambda>db_config.
       andthen (connect db_config) (\<lambda>conn s.
         case body conn s of
           (Inl e, s') \<Rightarrow> andthen (rollback conn) (\<lambda>_. andthen (close conn) (\<lambda>_. raise e)) s'
         | (Inr x, s') \<Rightarrow> andthen (close conn) (\<lambda>_. ret x) s'))"

subsection \<open>TableManager\<close>

definition table_columns :: "string list" where
  "table_columns =
     [''id'', ''room_id'', ''check_in_date'', ''room_name'', ''room_enname'', ''area'',
      ''capacity'', ''bed_type'', ''smoking'', ''price'', ''breakfast'', ''cancel'',
      ''currency'', ''hotel_name'', ''defaultname'', ''distance_m'', ''rating'',
      ''longitude'', ''latitude'', ''hop_hotel_name'', ''hop_hotel_id'', ''created_at'',
      ''updated_at'']"

text \<open>
  \<^verbatim>\<open>TableManager.create_table\<close>; the argument \<open>PNone\<close> is \<^verbatim>\<open>table_name=None\<close>. The
  table name is read from the configuration before the \<^verbatim>\<open>try\<close>.
\<close>

definition create_table :: "pyval \<Rightarrow> bool prog" where
  "create_table table_name =
     andthen (if table_name = PNone then get_table_name else ret table_name) (\<lambda>table_name.
       catch
         (DatabaseManager_get_connection (\<lambda>conn.
            andthen (execute conn (CreateTableIfNotExists table_name table_columns)) (\<lambda>_.
            andthen (run_stmts conn (map (CommentOnColumn table_name) table_columns)) (\<lambda>_.
            andthen (commit conn) (\<lambda>_.
            andthen (print (TableCreated table_name)) (\<lambda>_. ret True))))))
         (\<lambda>e. andthen (print (TableFailed e)) (\<lambda>_. ret False)))"

subsection \<open>ThreadedDataManager\<close>

text \<open>
  \<^verbatim>\<open>_chunk_data\<close>: \<^verbatim>\<open>range\<close> refuses the step 0, and a negative step from 0 up to the
  length gives no index at all.
\<close>

definition chunk_data :: "'a list \<Rightarrow> pyval \<Rightarrow> error + 'a list list" where
  "chunk_data data chunk_size =
     bindE (as_index chunk_size) (\<lambda>c.
       if c = 0 then Inl ValueError
       else if c < 0 then Inr []
       else Inr (map (\<lambda>i. slice data i (i + nat c)) (py_range (length data) (nat c))))"

definition insert_chunk :: "row list \<Rightarrow> pyval \<Rightarrow> nat \<Rightarrow> nat prog" where
  "insert_chunk chunk target_table thread_id =
     (case chunk of
        [] \<Rightarrow> ret 0
      | first # _ \<Rightarrow>
          andthen get_batch_size (\<lambda>batch_size.
            ConnectionPoolManager_get_connection (\<lambda>conn.
              catch
                (andthen (execute_batch conn target_table (map fst first) chunk batch_size) (\<lambda>_.
                 andthen (commit conn) (\<lambda>_. ret (length chunk))))
                (\<lambda>e. andthen (rollback conn) (\<lambda>_. raise e)))))"

text \<open>
  The tasks submitted to the executor, run in the scheduled order; each gives the
  outcome of its future, with the index it was submitted under.
\<close>

fun run_tasks :: "pyval \<Rightarrow> (nat \<times> row list) list \<Rightarrow> state \<Rightarrow> (nat \<times> (error + nat)) list \<times> state" where
  "run_tasks target [] s = ([], s)"
| "run_tasks target ((i, chunk) # ts) s =
     (case insert_chunk chunk target i s of
        (r, s1) \<Rightarrow> (case run_tasks target ts s1 of (rs, s2) \<Rightarrow> ((i, r) # rs, s2)))"

text \<open>
  The loop over \<^verbatim>\<open>as_completed\<close>, with the statements that follow it: the first failed
  future returns \<^verbatim>\<open>False\<close>; when the futures are exhausted the total is printed.
\<close>

fun completed_loop :: "pyval \<Rightarrow> (nat \<times> (error + nat)) list \<Rightarrow> nat \<Rightarrow> bool prog" where
  "completed_loop target [] total_inserted =
     andthen (print (ThreadedDone total_inserted target)) (\<lambda>_. ret True)"
| "completed_loop target ((thread_id, Inr inserted_count) # rs) total_inserted =
     completed_loop target rs (total_inserted + inserted_count)"
| "completed_loop target ((thread_id, Inl e) # rs) total_inserted =
     andthen (print (ThreadFailed thread_id e)) (\<lambda>_. ret False)"

text \<open>
  The \<^verbatim>\<open>try\<close> statement of \<^verbatim>\<open>insert_raw_data_threaded\<close>. Leaving the \<^verbatim>\<open>with\<close> block
  waits for every submitted task, also when the loop has returned early, so all tasks
  run whatever the outcome.
\<close>

definition threaded_try :: "pyval \<Rightarrow> row list list \<Rightarrow> pyval \<Rightarrow> nat list \<Rightarrow> bool prog" where
  "threaded_try max_workers chunks target_table picks =
     catch
       (andthen (lift (ThreadPoolExecutor max_workers)) (\<lambda>_ s.
          case run_tasks target_table (schedule picks (List.enumerate 0 chunks)) s of
            (results, s') \<Rightarrow> completed_loop target_table results 0 s'))
       (\<lambda>e. andthen (print (ThreadedFailed e)) (\<lambda>_. ret False))"

definition insert_raw_data_threaded :: "row list \<Rightarrow> pyval \<Rightarrow> nat list \<Rightarrow> bool prog" where
  "insert_raw_data_threaded room_list target_table picks =
     (if room_list = [] then andthen (print EmptySkipped) (\<lambda>_. ret True)
      else
        andthen get_threading_config (\<lambda>threading_config.
        andthen (lift (subscript threading_config (PStr ''max_workers''))) (\<lambda>max_workers.
        andthen (lift (subscript threading_config (PStr ''chunk_size''))) (\<lambda>chunk_size.
        andthen (lift (chunk_data room_list chunk_size)) (\<lambda>chunks.
        andthen (print (ThreadedStart (length room_list) (length chunks) max_workers)) (\<lambda>_.
          threaded_try max_workers chunks target_table picks))))))"

subsection \<open>DataManager\<close>

definition insert_raw_data :: "row list \<Rightarrow> pyval \<Rightarrow> bool prog" where
  "insert_raw_data room_list target_table =
     (case room_list of
        [] \<Rightarrow> andthen (print NothingToInsert) (\<lambda>_. ret True)
      | first # _ \<Rightarrow>
          catch
            (DatabaseManager_get_connection (\<lambda>conn.
               andthen get_batch_size (\<lambda>batch_size.
               andthen (execute_batch conn target_table (map fst first) room_list batch_size) (\<lambda>_.
               andthen (commit conn) (\<lambda>_.
               andthen (print (Inserted (length room_list))) (\<lambda>_. ret True))))))
            (\<lambda>e. andthen (print (InsertFailed e)) (\<lambda>_. ret False)))"

subsection \<open>The guarded statements\<close>



section \<open>Notions used in the statements\<close>

text \<open>
  Two states agree on the database: the durable tables, the open transaction, whether
  the server is reachable, and which rows the schema accepts.
\<close>

definition same_db :: "state \<Rightarrow> state \<Rightarrow> bool" where
  "same_db s s' \<longleftrightarrow>
     committed s' = committed s \<and> txn s' = txn s \<and> reachable s' = reachable s \<and>
     row_ok s' = row_ok s"

text \<open>The number of rows of the table with a given name; a missing table has none.\<close>

definition row_count :: "pyval \<Rightarrow> tables \<Rightarrow> nat" where
  "row_count name tbls = (case map_of tbls name of None \<Rightarrow> 0 | Some t \<Rightarrow> length (rows t))"

text \<open>An outcome that is a value, not an exception.\<close>

definition succeeded :: "error + 'a \<Rightarrow> bool" where
  "succeeded r = (case r of Inl e \<Rightarrow> False | Inr x \<Rightarrow> True)"

text \<open>A step that changes nothing but the loader's cache and the count of file reads.\<close>

definition loader_step :: "state \<Rightarrow> state \<Rightarrow> bool" where
  "loader_step s s' \<longleftrightarrow> s' = s\<lparr>reads := reads s', loader_cache := loader_cache s'\<rparr>"

section \<open>Example inputs\<close>

text \<open>
  A configuration file with an environment, a database section and no \<^verbatim>\<open>app\<close> section,
  and the state of a fresh process that finds a given document at \<^verbatim>\<open>config.yml\<close> and a
  reachable server with no tables.
\<close>

definition example_db_config :: pyval where
  "example_db_config =
     PDict [(''host'', PStr ''localhost''), (''port'', PInt 5432),
            (''database'', PStr ''agoda''), (''user'', PStr ''postgres''),
            (''password'', PStr ''secret'')]"

definition example_config :: pyval where
  "example_config =
     PDict [(''environment'', PDict [(''current'', PStr ''development'')]),
            (''database'', PDict [(''table_name'', PStr ''agoda_rooms''),
                                  (''development'', example_db_config)])]"

definition example_state :: "pyval \<Rightarrow> state" where
  "example_state config =
     \<lparr>files = (\<lambda>p. if p = ''config.yml'' then Content config else Absent),
      reads = 0, reachable = True, row_ok = (\<lambda>r. True), committed = [], txn = None,
      next_conn = 0, events = [], printed = [],
      loader_path = ''config.yml'', loader_cache = PNone,
      cm_path = ''config.yml'', cm_cache = PNone,
      dbm_db_config = PNone, cpm_db_config = PNone, cpm_pool = None\<rparr>"

text \<open>A configuration whose \<^verbatim>\<open>app.threading\<close> section sets the given values.\<close>

definition threading_config :: "pyval \<Rightarrow> pyval \<Rightarrow> pyval" where
  "threading_config max_workers chunk_size =
     PDict [(''environment'', PDict [(''current'', PStr ''development'')]),
            (''database'', PDict [(''table_name'', PStr ''agoda_rooms''),
                                  (''development'', example_db_config)]),
            (''app'', PDict [(''threading'',
                               PDict [(''max_workers'', max_workers),
                                      (''chunk_size'', chunk_size)])])]"

text \<open>
  Three records, a state in which the table exists and the schema rejects a price of 0,
  and three records of which the second is rejected.
\<close>

definition example_rooms :: "row list" where
  "example_rooms =
     [[(''room_id'', PStr ''r1''), (''price'', PInt 100)],
      [(''room_id'', PStr ''r2''), (''price'', PInt 200)],
      [(''room_id'', PStr ''r3''), (''price'', PInt 300)]]"

definition example_ready :: "pyval \<Rightarrow> state" where
  "example_ready config =
     (example_state config)
       \<lparr>committed := [(PStr ''agoda_rooms'',
                       \<lparr>columns = table_columns, described = [], rows = []\<rparr>)],
        row_ok := (\<lambda>r. map_of r ''price'' \<noteq> Some (PInt 0))\<rparr>"

definition bad_rooms :: "row list" where
  "bad_rooms =
     [[(''room_id'', PStr ''r1''), (''price'', PInt 100)],
      [(''room_id'', PStr ''r2''), (''price'', PInt 0)],
      [(''room_id'', PStr ''r3''), (''price'', PInt 300)]]"

text \<open>A body of a \<^verbatim>\<open>with\<close> statement that fails: it inserts into a table that is not there.\<close>

definition failing_body :: "nat \<Rightarrow> unit prog" where
  "failing_body conn = execute conn (InsertInto (PStr ''missing'') [''room_id''] [])"

section \<open>Properties of the configuration modules\<close>

lemma truthy_not_None: "truthy v \<Longrightarrow> v \<noteq> PNone"
  by (cases v) simp_all

lemma andthenI: "m s = (Inr x, s1) \<Longrightarrow> andthen m f s = f x s1"
  by (simp add: andthen_def)


lemma andthen_cases:
  assumes "andthen m f s = (r, s')"
  obtains (fail) e where "m s = (Inl e, s')" "r = Inl e"
        | (ok) x s1 where "m s = (Inr x, s1)" "f x s1 = (r, s')"
  using assms by (auto simp: andthen_def split: prod.splits sum.splits)

lemma andthen_Inr:
  assumes "andthen m f s = (Inr y, s')"
  obtains x s1 where "m s = (Inr x, s1)" "f x s1 = (Inr y, s')"
  using assms by (auto simp: andthen_def split: prod.splits sum.splits)

subsection \<open>The cache of the loader\<close>

lemma get_config_cache:
  assumes "get_config False s = (Inr config, s1)"
  shows "loader_cache s1 = config \<and> config \<noteq> PNone"
  using assms
  by (auto simp: get_config_def load_yaml_config_def truthy_not_None
           split: if_splits file_state.splits)

lemma get_config_again:
  assumes "get_config False s = (Inr config, s1)"
  shows "get_config False (s1\<lparr>files := f\<rparr>) = (Inr config, s1\<lparr>files := f\<rparr>)"
  using get_config_cache [OF assms] by (simp add: get_config_def)

lemma get_config_again_same:
  assumes "get_config False s = (Inr config, s1)"
  shows "get_config False s1 = (Inr config, s1)"
  using get_config_cache [OF assms] by (simp add: get_config_def)

text \<open>
  Once the configuration is in the cache, \<^verbatim>\<open>get_database_config\<close> depends on the cached
  value only.
\<close>

lemma get_database_config_run:
  assumes gc: "get_config False s = (Inr c, s1)" and gt: "get_config False t = (Inr c, t1)"
  shows "fst (get_database_config env s) = fst (get_database_config env t)"
    and "snd (get_database_config env s) = s1"
proof -
  note gc' = get_config_again_same [OF gc] and gt' = get_config_again_same [OF gt]
  show "fst (get_database_config env s) = fst (get_database_config env t)"
    by (simp add: get_database_config_def get_current_environment_def andthen_def lift_def
          ret_def gc gc' gt gt' split: sum.splits)
  show "snd (get_database_config env s) = s1"
    by (simp add: get_database_config_def get_current_environment_def andthen_def lift_def
          ret_def gc gc' split: sum.splits)
qed

lemma load_config_eq: "load_config env s = get_database_config env s"
  by (simp add: load_config_def catch_def raise_def split: prod.splits sum.splits)

lemma get_database_config_Inr:
  assumes "get_database_config env s = (Inr d, s1)"
  obtains c where "get_config False s = (Inr c, s1)"
proof -
  from assms obtain c s0 where gc: "get_config False s = (Inr c, s0)"
    unfolding get_database_config_def by (auto elim: andthen_Inr)
  from get_database_config_run(2) [OF gc gc, of env] assms have "s0 = s1" by simp
  with gc that show thesis by simp
qed

lemma load_config_again:
  assumes "load_config env s = (Inr d, s1)"
  shows "load_config env (s1\<lparr>files := f\<rparr>) = (Inr d, s1\<lparr>files := f\<rparr>)"
proof -
  from assms have gd: "get_database_config env s = (Inr d, s1)"
    by (simp add: load_config_eq)
  then obtain c where gc: "get_config False s = (Inr c, s1)"
    by (rule get_database_config_Inr)
  note gf = get_config_again [OF gc, of f]
  from get_database_config_run [OF gf gc, of env] gd
  show ?thesis by (simp add: load_config_eq prod_eq_iff)
qed

text \<open>
  C4. After a call of \<^verbatim>\<open>get_config\<close> has loaded the configuration, a second call without
  \<^verbatim>\<open>force_reload\<close> returns the cached value and leaves the state, with its count of file
  reads, as it is, whatever the file holds by then; \<^verbatim>\<open>load_config\<close>, which goes through
  \<^verbatim>\<open>get_config\<close>, repeats its result in the same way. With \<^verbatim>\<open>force_reload=True\<close>, and so
  in \<^verbatim>\<open>reload_config\<close>, the file is read again and its present content replaces the cache.
\<close>

theorem config_cached:
  assumes "get_config False s = (Inr config, s1)"
  shows "get_config False (s1\<lparr>files := f\<rparr>) = (Inr config, s1\<lparr>files := f\<rparr>) \<and>
         (\<forall>env d s2. load_config env s1 = (Inr d, s2) \<longrightarrow>
            load_config env (s1\<lparr>files := f\<rparr>) = (Inr d, s1\<lparr>files := f\<rparr>)) \<and>
         (\<forall>c. f (loader_path s1) = Content c \<and> truthy c \<longrightarrow>
            get_config True (s1\<lparr>files := f\<rparr>) =
              (Inr c, s1\<lparr>files := f, reads := reads s1 + 1, loader_cache := c\<rparr>) \<and>
            reload_config (s1\<lparr>files := f\<rparr>) =
              (Inr (), s1\<lparr>files := f, reads := reads s1 + 1, loader_cache := c\<rparr>))"
proof (intro conjI allI impI)
  show "get_config False (s1\<lparr>files := f\<rparr>) = (Inr config, s1\<lparr>files := f\<rparr>)"
    by (rule get_config_again [OF assms])
next
  fix env d s2
  assume l: "load_config env s1 = (Inr d, s2)"
  then obtain c where "get_config False s1 = (Inr c, s2)"
    by (auto simp: load_config_eq elim: get_database_config_Inr)
  with get_config_again_same [OF assms] have "s2 = s1" by simp
  with load_config_again [OF l, of f]
  show "load_config env (s1\<lparr>files := f\<rparr>) = (Inr d, s1\<lparr>files := f\<rparr>)" by simp
next
  fix c
  assume c: "f (loader_path s1) = Content c \<and> truthy c"
  then show "get_config True (s1\<lparr>files := f\<rparr>) =
               (Inr c, s1\<lparr>files := f, reads := reads s1 + 1, loader_cache := c\<rparr>)"
    by (simp add: get_config_def load_yaml_config_def)
  then show "reload_config (s1\<lparr>files := f\<rparr>) =
               (Inr (), s1\<lparr>files := f, reads := reads s1 + 1, loader_cache := c\<rparr>)"
    by (simp add: reload_config_def andthen_def ret_def)
qed

theorem config_cached_witness:
  "get_config False
     ((example_state example_config)
        \<lparr>reads := 1, loader_cache := example_config, files := (\<lambda>p. Content (PInt 7))\<rparr>) =
     (Inr example_config,
      (example_state example_config)
        \<lparr>reads := 1, loader_cache := example_config, files := (\<lambda>p. Content (PInt 7))\<rparr>) \<and>
   load_config PNone
     ((example_state example_config)
        \<lparr>reads := 1, loader_cache := example_config, files := (\<lambda>p. Content (PInt 7))\<rparr>) =
     (Inr example_db_config,
      (example_state example_config)
        \<lparr>reads := 1, loader_cache := example_config, files := (\<lambda>p. Content (PInt 7))\<rparr>) \<and>
   get_config True
     ((example_state example_config)
        \<lparr>reads := 1, loader_cache := example_config, files := (\<lambda>p. Content (PInt 7))\<rparr>) =
     (Inr (PInt 7),
      (example_state example_config)
        \<lparr>reads := 1, loader_cache := example_config, files := (\<lambda>p. Content (PInt 7)),
          reads := 2, loader_cache := PInt 7\<rparr>)"
proof -
  let ?s1 = "(example_state example_config)\<lparr>reads := 1, loader_cache := example_config\<rparr>"
  have first: "get_config False (example_state example_config) = (Inr example_config, ?s1)"
    by (simp add: get_config_def load_yaml_config_def example_state_def example_config_def)
  have cached: "loader_cache ?s1 = example_config" "example_config \<noteq> PNone"
    by (simp_all add: example_config_def)
  have l: "load_config PNone ?s1 = (Inr example_db_config, ?s1)"
    unfolding load_config_eq get_database_config_def get_current_environment_def get_config_def
    by (simp add: cached andthen_def)
       (simp add: example_config_def andthen_def lift_def ret_def bindE_def)
  have f: "(\<lambda>p. Content (PInt 7)) (loader_path ?s1) = Content (PInt 7) \<and> truthy (PInt 7)"
    by simp
  from config_cached [OF first, of "\<lambda>p. Content (PInt 7)"] l f
  show ?thesis by (simp del: One_nat_def)
qed

subsection \<open>Environments\<close>




text \<open>
  C9, as stated, fails: a configuration whose \<^verbatim>\<open>environment\<close> entry is null has no
  \<^verbatim>\<open>environment.current\<close> entry, and \<^verbatim>\<open>get_current_environment\<close> raises \<^verbatim>\<open>TypeError\<close>,
  which its \<^verbatim>\<open>except KeyError\<close> does not catch.
\<close>

theorem null_environment_raises:
  "get_config False (example_state (PDict [(''environment'', PNone)])) =
     (Inr (PDict [(''environment'', PNone)]),
      (example_state (PDict [(''environment'', PNone)]))
        \<lparr>reads := 1, loader_cache := PDict [(''environment'', PNone)]\<rparr>) \<and>
   fst (get_current_environment (example_state (PDict [(''environment'', PNone)]))) =
     Inl TypeError"
  by (simp add: get_current_environment_def get_config_def load_yaml_config_def
        example_state_def andthen_def lift_def bindE_def)

text \<open>
  C9, amended. When the loaded configuration is a mapping without the key
  \<^verbatim>\<open>environment\<close>, or with an \<^verbatim>\<open>environment\<close> mapping without the key \<^verbatim>\<open>current\<close>,
  \<^verbatim>\<open>get_current_environment\<close> returns \<^verbatim>\<open>'development'\<close>, and \<^verbatim>\<open>load_config\<close> without an
  environment does what \<^verbatim>\<open>load_config('development')\<close> does.
\<close>

theorem default_environment:
  assumes "get_config False s = (Inr (PDict cfg), s1)"
    and "map_of cfg ''environment'' = None \<or>
         (\<exists>e. map_of cfg ''environment'' = Some (PDict e) \<and> map_of e ''current'' = None)"
  shows "get_current_environment s = (Inr (PStr ''development''), s1) \<and>
         load_config PNone s = load_config (PStr ''development'') s"
  using assms get_config_again_same [OF assms(1)]
  by (auto simp: load_config_eq get_database_config_def get_current_environment_def
        andthen_def lift_def ret_def bindE_def)

theorem default_environment_witness:
  "get_current_environment
     (example_state (PDict [(''database'', PDict [(''development'', example_db_config)])])) =
     (Inr (PStr ''development''),
      (example_state (PDict [(''database'', PDict [(''development'', example_db_config)])]))
        \<lparr>reads := 1,
          loader_cache := PDict [(''database'', PDict [(''development'', example_db_config)])]\<rparr>) \<and>
   load_config PNone
     (example_state (PDict [(''database'', PDict [(''development'', example_db_config)])])) =
   load_config (PStr ''development'')
     (example_state (PDict [(''database'', PDict [(''development'', example_db_config)])]))"
proof -
  let ?c = "PDict [(''database'', PDict [(''development'', example_db_config)])]"
  have first: "get_config False (example_state ?c) =
      (Inr ?c, (example_state ?c)\<lparr>reads := 1, loader_cache := ?c\<rparr>)"
    by (simp add: get_config_def load_yaml_config_def example_state_def)
  show ?thesis
    using default_environment [OF first] by simp
qed

subsection \<open>Defaults of the ConfigManager\<close>

text \<open>
  C10, amended. When the loaded configuration is a mapping without the key \<^verbatim>\<open>app\<close>,
  \<^verbatim>\<open>get_batch_size\<close> returns 100, \<^verbatim>\<open>get_threading_config\<close> returns the default with
  \<^verbatim>\<open>max_workers\<close> 4, \<^verbatim>\<open>chunk_size\<close> 1000 and threading disabled, and
  \<^verbatim>\<open>is_threading_enabled\<close> returns \<^verbatim>\<open>False\<close>; none of them raises. When \<^verbatim>\<open>app\<close> is a
  mapping, the same holds for each accessor whose own key is absent: \<^verbatim>\<open>batch_size\<close>,
  \<^verbatim>\<open>threading\<close>, and \<^verbatim>\<open>enable_threading\<close> inside a \<^verbatim>\<open>threading\<close> mapping.
\<close>

theorem config_defaults:
  assumes "ConfigManager_load_config s = (Inr (PDict cfg), s')"
  shows "(map_of cfg ''app'' = None \<longrightarrow>
            get_batch_size s = (Inr (PInt 100), s') \<and>
            get_threading_config s =
              (Inr (PDict [(''max_workers'', PInt 4), (''chunk_size'', PInt 1000),
                           (''enable_threading'', PBool False)]), s') \<and>
            is_threading_enabled s = (Inr (PBool False), s')) \<and>
         (\<forall>app. map_of cfg ''app'' = Some (PDict app) \<longrightarrow>
            (map_of app ''batch_size'' = None \<longrightarrow> get_batch_size s = (Inr (PInt 100), s')) \<and>
            (map_of app ''threading'' = None \<longrightarrow>
               get_threading_config s =
                 (Inr (PDict [(''max_workers'', PInt 4), (''chunk_size'', PInt 1000),
                              (''enable_threading'', PBool False)]), s') \<and>
               is_threading_enabled s = (Inr (PBool False), s')) \<and>
            (\<forall>th. map_of app ''threading'' = Some (PDict th) \<longrightarrow>
               map_of th ''enable_threading'' = None \<longrightarrow>
               is_threading_enabled s = (Inr (PBool False), s')))"
  using assms
  by (simp add: get_batch_size_def get_threading_config_def is_threading_enabled_def
        andthen_def lift_def bindE_def)

theorem config_defaults_witness:
  "get_batch_size (example_state example_config) =
     (Inr (PInt 100), (example_state example_config)\<lparr>reads := 1, cm_cache := example_config\<rparr>) \<and>
   get_threading_config (example_state example_config) =
     (Inr (PDict [(''max_workers'', PInt 4), (''chunk_size'', PInt 1000),
                  (''enable_threading'', PBool False)]),
      (example_state example_config)\<lparr>reads := 1, cm_cache := example_config\<rparr>) \<and>
   is_threading_enabled (example_state example_config) =
     (Inr (PBool False), (example_state example_config)\<lparr>reads := 1, cm_cache := example_config\<rparr>) \<and>
   is_threading_enabled (example_state (threading_config (PInt 4) (PInt 2))) =
     (Inr (PBool False),
      (example_state (threading_config (PInt 4) (PInt 2)))
        \<lparr>reads := 1, cm_cache := threading_config (PInt 4) (PInt 2)\<rparr>)"
proof -
  have first: "ConfigManager_load_config (example_state example_config) =
      (Inr (PDict [(''environment'', PDict [(''current'', PStr ''development'')]),
                   (''database'', PDict [(''table_name'', PStr ''agoda_rooms''),
                                         (''development'', example_db_config)])]),
       (example_state example_config)\<lparr>reads := 1, cm_cache := example_config\<rparr>)"
    by (simp add: ConfigManager_load_config_def example_state_def example_config_def)
  have second: "ConfigManager_load_config (example_state (threading_config (PInt 4) (PInt 2))) =
      (Inr (PDict [(''environment'', PDict [(''current'', PStr ''development'')]),
                   (''database'', PDict [(''table_name'', PStr ''agoda_rooms''),
                                         (''development'', example_db_config)]),
                   (''app'', PDict [(''threading'',
                                      PDict [(''max_workers'', PInt 4),
                                             (''chunk_size'', PInt 2)])])]),
       (example_state (threading_config (PInt 4) (PInt 2)))
         \<lparr>reads := 1, cm_cache := threading_config (PInt 4) (PInt 2)\<rparr>)"
    by (simp add: ConfigManager_load_config_def example_state_def threading_config_def)
  show ?thesis
    using config_defaults [OF first] config_defaults [OF second] by simp
qed

text \<open>
  C10, as stated, fails: in a configuration whose \<^verbatim>\<open>app\<close> entry is null, the section of a
  file whose entries are all commented out, the keys \<^verbatim>\<open>batch_size\<close> and \<^verbatim>\<open>threading\<close> are
  absent, and the accessors raise the \<^verbatim>\<open>AttributeError\<close> of \<^verbatim>\<open>None.get\<close>: the default
  \<^verbatim>\<open>{}\<close> of \<^verbatim>\<open>config.get('app', {})\<close> stands in for a missing key only.
\<close>

theorem null_app_section_raises:
  "ConfigManager_load_config (example_state (PDict [(''app'', PNone)])) =
     (Inr (PDict [(''app'', PNone)]),
      (example_state (PDict [(''app'', PNone)]))
        \<lparr>reads := 1, cm_cache := PDict [(''app'', PNone)]\<rparr>) \<and>
   fst (get_batch_size (example_state (PDict [(''app'', PNone)]))) = Inl AttributeError \<and>
   fst (get_threading_config (example_state (PDict [(''app'', PNone)]))) = Inl AttributeError \<and>
   fst (is_threading_enabled (example_state (PDict [(''app'', PNone)]))) = Inl AttributeError"
  by (simp add: get_batch_size_def get_threading_config_def is_threading_enabled_def
        ConfigManager_load_config_def example_state_def andthen_def lift_def bindE_def)

section \<open>What the configuration leaves alone\<close>

lemma same_db_refl [simp]: "same_db s s"
  by (simp add: same_db_def)

lemma same_db_trans: "same_db s s1 \<Longrightarrow> same_db s1 s2 \<Longrightarrow> same_db s s2"
  by (simp add: same_db_def)

lemma andthen_same_db:
  assumes "andthen m f s = (r, s')"
    and "\<And>r1 s1. m s = (r1, s1) \<Longrightarrow> same_db s s1"
    and "\<And>x s1. m s = (Inr x, s1) \<Longrightarrow> f x s1 = (r, s') \<Longrightarrow> same_db s1 s'"
  shows "same_db s s'"
  using assms(1)
proof (cases rule: andthen_cases)
  case (fail e)
  then show ?thesis using assms(2) by simp
next
  case (ok x s1)
  then show ?thesis using assms(2,3) same_db_trans by blast
qed

lemma lift_same_db: "lift v s = (r, s') \<Longrightarrow> same_db s s'"
  by (auto simp: lift_def)

lemma ret_same_db: "ret v s = (r, s') \<Longrightarrow> same_db s s'"
  by (auto simp: ret_def)

lemma print_same_db: "print m s = (r, s') \<Longrightarrow> same_db s s'"
  by (auto simp: print_def same_db_def)

lemma ConfigManager_load_config_same_db:
  "ConfigManager_load_config s = (r, s') \<Longrightarrow> same_db s s'"
  by (auto simp: ConfigManager_load_config_def same_db_def split: if_splits file_state.splits)

lemma get_batch_size_same_db: "get_batch_size s = (r, s') \<Longrightarrow> same_db s s'"
  unfolding get_batch_size_def
  by (erule andthen_same_db) (auto dest: ConfigManager_load_config_same_db lift_same_db)

lemma get_threading_config_same_db: "get_threading_config s = (r, s') \<Longrightarrow> same_db s s'"
  unfolding get_threading_config_def
  by (erule andthen_same_db) (auto dest: ConfigManager_load_config_same_db lift_same_db)

lemma get_connection_pool_config_same_db:
  "get_connection_pool_config s = (r, s') \<Longrightarrow> same_db s s'"
  unfolding get_connection_pool_config_def
  by (erule andthen_same_db) (auto dest: ConfigManager_load_config_same_db lift_same_db)

lemma get_table_name_same_db: "get_table_name s = (r, s') \<Longrightarrow> same_db s s'"
  unfolding get_table_name_def
  by (erule andthen_same_db) (auto dest: ConfigManager_load_config_same_db lift_same_db)

lemma get_config_same_db: "get_config b s = (r, s') \<Longrightarrow> same_db s s'"
  by (auto simp: get_config_def load_yaml_config_def same_db_def
        split: if_splits file_state.splits)

lemma get_current_environment_same_db: "get_current_environment s = (r, s') \<Longrightarrow> same_db s s'"
  unfolding get_current_environment_def
  by (erule andthen_same_db) (auto dest: get_config_same_db lift_same_db)

lemma get_database_config_same_db: "get_database_config env s = (r, s') \<Longrightarrow> same_db s s'"
  unfolding get_database_config_def
  apply (erule andthen_same_db)
   apply (erule get_config_same_db)
  apply (erule andthen_same_db)
   apply (auto dest: get_current_environment_same_db ret_same_db lift_same_db split: if_splits)
  done

lemma load_config_same_db: "load_config env s = (r, s') \<Longrightarrow> same_db s s'"
  by (simp add: load_config_eq get_database_config_same_db)

lemma DatabaseManager_get_db_config_same_db:
  "DatabaseManager_get_db_config s = (r, s') \<Longrightarrow> same_db s s'"
  unfolding DatabaseManager_get_db_config_def
  apply (simp split: if_splits)
  apply (erule andthen_same_db, erule load_config_same_db)
  apply (erule andthen_same_db, force simp: same_db_def)
  apply (erule andthen_same_db, erule lift_same_db)
  apply (erule andthen_same_db, erule lift_same_db)
  apply (erule ret_same_db)
  done

lemma ConnectionPoolManager_get_db_config_same_db:
  "ConnectionPoolManager_get_db_config s = (r, s') \<Longrightarrow> same_db s s'"
  unfolding ConnectionPoolManager_get_db_config_def
  apply (simp split: if_splits)
  apply (erule andthen_same_db, erule load_config_same_db)
  apply (erule andthen_same_db, force simp: same_db_def)
  apply (erule andthen_same_db, erule lift_same_db)
  apply (erule andthen_same_db, erule lift_same_db)
  apply (erule ret_same_db)
  done

lemma new_pool_same_db: "new_pool a b c s = (r, s') \<Longrightarrow> same_db s s'"
  by (auto simp: new_pool_def same_db_def split: pyval.splits if_splits)

lemma initialize_pool_same_db: "initialize_pool s = (r, s') \<Longrightarrow> same_db s s'"
  unfolding initialize_pool_def
  apply (simp split: if_splits)
  apply (erule andthen_same_db, erule ConnectionPoolManager_get_db_config_same_db)
  apply (erule andthen_same_db, erule get_connection_pool_config_same_db)
  apply (erule andthen_same_db, erule lift_same_db)
  apply (erule andthen_same_db, erule lift_same_db)
  apply (erule andthen_same_db, erule new_pool_same_db)
  apply (force simp: same_db_def)
  done


section \<open>Connections\<close>

lemmas prog_defs = ret_def raise_def lift_def andthen_def catch_def bindE_def print_def

lemmas db_defs = execute_def commit_def rollback_def close_def putconn_def connect_def
  new_pool_def getconn_def working_def

lemmas cfg_defs = load_config_def get_database_config_def get_current_environment_def
  get_config_def load_yaml_config_def ConfigManager_load_config_def get_table_name_def
  get_batch_size_def get_connection_pool_config_def get_threading_config_def

lemmas eval_defs = ConnectionPoolManager_get_connection_def DatabaseManager_get_connection_def
  initialize_pool_def ConnectionPoolManager_get_db_config_def DatabaseManager_get_db_config_def
  cfg_defs prog_defs db_defs example_state_def example_config_def example_db_config_def

text \<open>
  C7. In both \<^verbatim>\<open>get_connection\<close> context managers, once a connection has been obtained
  the outcome of the body is the outcome of the \<^verbatim>\<open>with\<close> statement. When the body raises,
  the connection is rolled back and then released (returned to the pool, or closed), in
  that order, after everything the body did, and the same exception is raised; when the
  body returns, the connection is released with no rollback.
\<close>

theorem rollback_before_release:
  "(initialize_pool s = (Inr (), s0) \<and> getconn s0 = (Inr conn, s1) \<and> body conn s1 = (r, s2) \<longrightarrow>
      ConnectionPoolManager_get_connection body s =
        (r, s2\<lparr>txn := None,
               events := events s2 @ (case r of Inl e \<Rightarrow> [RolledBack conn, PutConn conn]
                                              | Inr x \<Rightarrow> [PutConn conn])\<rparr>)) \<and>
   (DatabaseManager_get_db_config s = (Inr db_config, s0) \<and> connect db_config s0 = (Inr conn, s1) \<and>
    body conn s1 = (r, s2) \<longrightarrow>
      DatabaseManager_get_connection body s =
        (r, s2\<lparr>txn := None,
               events := events s2 @ (case r of Inl e \<Rightarrow> [RolledBack conn, Closed conn]
                                              | Inr x \<Rightarrow> [Closed conn])\<rparr>))"
  by (cases r)
     (simp_all add: ConnectionPoolManager_get_connection_def DatabaseManager_get_connection_def
        andthen_def rollback_def putconn_def close_def raise_def ret_def)

theorem rollback_before_release_witness:
  "fst (ConnectionPoolManager_get_connection failing_body (example_state example_config)) =
     Inl ProgrammingError \<and>
   events (snd (ConnectionPoolManager_get_connection failing_body (example_state example_config))) =
     [PoolCreated, GotConn 0, Executed 0 (InsertInto (PStr ''missing'') [''room_id''] []),
      RolledBack 0, PutConn 0] \<and>
   fst (DatabaseManager_get_connection failing_body (example_state example_config)) =
     Inl ProgrammingError \<and>
   events (snd (DatabaseManager_get_connection failing_body (example_state example_config))) =
     [Connected 0, Executed 0 (InsertInto (PStr ''missing'') [''room_id''] []),
      RolledBack 0, Closed 0] \<and>
   events (snd (ConnectionPoolManager_get_connection commit (example_state example_config))) =
     [PoolCreated, GotConn 0, Committed 0, PutConn 0]"
proof -
  let ?S = "example_state example_config"
  let ?P0 = "snd (initialize_pool ?S)"
  let ?P1 = "snd (getconn ?P0)"
  let ?D0 = "snd (DatabaseManager_get_db_config ?S)"
  let ?D1 = "snd (connect example_db_config ?D0)"
  have p0: "initialize_pool ?S = (Inr (), ?P0)"
    by (simp add: prod_eq_iff eval_defs)
  have p1: "getconn ?P0 = (Inr 0, ?P1)"
    by (simp add: prod_eq_iff eval_defs)
  have d0: "DatabaseManager_get_db_config ?S = (Inr example_db_config, ?D0)"
    by (simp add: prod_eq_iff eval_defs)
  have d1: "connect example_db_config ?D0 = (Inr 0, ?D1)"
    by (simp add: prod_eq_iff eval_defs)
  have bp: "failing_body 0 ?P1 = (Inl ProgrammingError, snd (failing_body 0 ?P1))"
    by (simp add: prod_eq_iff eval_defs failing_body_def)
  have bd: "failing_body 0 ?D1 = (Inl ProgrammingError, snd (failing_body 0 ?D1))"
    by (simp add: prod_eq_iff eval_defs failing_body_def)
  have bc: "commit 0 ?P1 = (Inr (), snd (commit 0 ?P1))"
    by (simp add: prod_eq_iff eval_defs)
  have ep: "events (snd (failing_body 0 ?P1)) =
      [PoolCreated, GotConn 0, Executed 0 (InsertInto (PStr ''missing'') [''room_id''] [])]"
    by (simp add: eval_defs failing_body_def)
  have ed: "events (snd (failing_body 0 ?D1)) =
      [Connected 0, Executed 0 (InsertInto (PStr ''missing'') [''room_id''] [])]"
    by (simp add: eval_defs failing_body_def)
  have ec: "events (snd (commit 0 ?P1)) = [PoolCreated, GotConn 0, Committed 0]"
    by (simp add: eval_defs)
  note a = rollback_before_release [of ?S ?P0 0 ?P1 failing_body "Inl ProgrammingError"
      "snd (failing_body 0 ?P1)", THEN conjunct1, THEN mp, OF conjI [OF p0 conjI [OF p1 bp]]]
  note b = rollback_before_release [of ?S ?D0 0 ?D1 failing_body "Inl ProgrammingError"
      "snd (failing_body 0 ?D1)" example_db_config, THEN conjunct2, THEN mp,
      OF conjI [OF d0 conjI [OF d1 bd]]]
  note c = rollback_before_release [of ?S ?P0 0 ?P1 commit "Inr ()" "snd (commit 0 ?P1)",
      THEN conjunct1, THEN mp, OF conjI [OF p0 conjI [OF p1 bc]]]
  show ?thesis
    unfolding a b c by (simp add: ep ed ec)
qed

text \<open>
  When no connection can be obtained there is nothing to roll back or release: the
  exception of \<^verbatim>\<open>getconn\<close>, or of \<^verbatim>\<open>connect\<close>, is raised and no event is added.
\<close>

lemma no_connection_no_release:
  "initialize_pool s = (Inr (), s0) \<Longrightarrow> getconn s0 = (Inl e, s1) \<Longrightarrow>
     ConnectionPoolManager_get_connection body s = (Inl e, s0)"
  "DatabaseManager_get_db_config s = (Inr db_config, s0) \<Longrightarrow> connect db_config s0 = (Inl e, s1) \<Longrightarrow>
     DatabaseManager_get_connection body s = (Inl e, s0)"
  by (auto simp: ConnectionPoolManager_get_connection_def DatabaseManager_get_connection_def
        andthen_def getconn_def connect_def split: if_splits pyval.splits)

section \<open>The insert paths\<close>

text \<open>
  C8. On the empty list both insert functions return \<^verbatim>\<open>True\<close>; the only change of the
  state is the printed message, so no connection is acquired, no statement is executed
  and the tables are as before.
\<close>

theorem empty_inserts:
  "insert_raw_data [] target s = (Inr True, s\<lparr>printed := printed s @ [NothingToInsert]\<rparr>) \<and>
   insert_raw_data_threaded [] target picks s =
     (Inr True, s\<lparr>printed := printed s @ [EmptySkipped]\<rparr>)"
  by (simp add: insert_raw_data_def insert_raw_data_threaded_def andthen_def print_def ret_def)

subsection \<open>Chunks\<close>

lemma concat_slices_upto:
  "concat (map (\<lambda>k. take c (drop (k * c) xs)) [0..<m]) = take (m * c) xs"
proof (induction m)
  case 0
  show ?case by simp
next
  case (Suc m)
  have "take (m * c) xs @ take c (drop (m * c) xs) = take (m * c + c) xs"
    by (simp add: take_add)
  with Suc show ?case by (simp add: add.commute)
qed

lemma ceil_div_covers: "0 < c \<Longrightarrow> n \<le> (n + c - 1) div c * c" for n c :: nat
proof -
  assume c: "0 < c"
  have "n + c - 1 = (n + c - 1) div c * c + (n + c - 1) mod c" by simp
  moreover have "(n + c - 1) mod c < c" using c by simp
  ultimately show ?thesis by linarith
qed

lemma slices_eq:
  "map (\<lambda>i. slice xs i (i + c)) (py_range n c) = map (\<lambda>k. take c (drop (k * c) xs)) [0..<(n + c - 1) div c]"
  by (simp add: py_range_def slice_def comp_def)

lemma concat_slices:
  assumes "0 < c"
  shows "concat (map (\<lambda>i. slice xs i (i + c)) (py_range (length xs) c)) = xs"
  using ceil_div_covers [OF assms, of "length xs"]
  by (simp add: slices_eq concat_slices_upto)

lemma length_slices: "length (map (\<lambda>i. slice xs i (i + c)) (py_range n c)) = (n + c - 1) div c"
  by (simp add: py_range_def)

lemma nth_slices:
  assumes "k < (n + c - 1) div c"
  shows "map (\<lambda>i. slice xs i (i + c)) (py_range n c) ! k = take c (drop (k * c) xs)"
  using assms by (simp add: slices_eq)

lemma full_slice:
  assumes c: "0 < c" and k: "Suc k < (n + c - 1) div c"
  shows "k * c + c \<le> n"
proof (rule ccontr)
  assume "\<not> k * c + c \<le> n"
  then have "n + c - 1 < Suc (Suc k) * c" using c by simp
  then have "(n + c - 1) div c < Suc (Suc k)" using c
    by (simp add: less_mult_imp_div_less mult.commute)
  with k show False by simp
qed

lemma last_slice:
  assumes c: "0 < c" and m: "(n + c - 1) div c = Suc k"
  shows "k * c < n"
proof (rule ccontr)
  assume "\<not> k * c < n"
  then have "n + c - 1 < Suc k * c" using c by simp
  then have "(n + c - 1) div c < Suc k" using c
    by (simp add: less_mult_imp_div_less mult.commute)
  with m show False by simp
qed


lemma chunk_data_positive:
  assumes "as_index chunk_size = Inr c" and "0 < c"
  shows "chunk_data xs chunk_size =
           Inr (map (\<lambda>i. slice xs i (i + nat c)) (py_range (length xs) (nat c)))"
  using assms by (simp add: chunk_data_def bindE_def)

lemma chunk_data_chunks:
  assumes cs: "as_index chunk_size = Inr c" and c: "0 < c"
    and ch: "chunk_data xs chunk_size = Inr chunks"
  shows "concat chunks = xs"
    and "\<forall>i. Suc i < length chunks \<longrightarrow> length (chunks ! i) = nat c"
    and "\<forall>i < length chunks. 0 < length (chunks ! i) \<and> length (chunks ! i) \<le> nat c"
proof -
  let ?c = "nat c"
  let ?m = "(length xs + ?c - 1) div ?c"
  have pos: "0 < ?c" using c by simp
  have chunks: "chunks = map (\<lambda>i. slice xs i (i + ?c)) (py_range (length xs) ?c)"
    using chunk_data_positive [OF cs c, of xs] ch by simp
  show "concat chunks = xs"
    unfolding chunks by (rule concat_slices [OF pos])
  have len: "length chunks = ?m"
    unfolding chunks by (rule length_slices)
  show "\<forall>i. Suc i < length chunks \<longrightarrow> length (chunks ! i) = ?c"
  proof (intro allI impI)
    fix i assume i: "Suc i < length chunks"
    then have "i < ?m" using len by simp
    then have "chunks ! i = take ?c (drop (i * ?c) xs)"
      unfolding chunks by (rule nth_slices)
    moreover have "i * ?c + ?c \<le> length xs"
      using full_slice [OF pos] i len by simp
    ultimately show "length (chunks ! i) = ?c" by simp
  qed
  show "\<forall>i < length chunks. 0 < length (chunks ! i) \<and> length (chunks ! i) \<le> ?c"
  proof (intro allI impI)
    fix i assume i: "i < length chunks"
    then have "i < ?m" using len by simp
    then have nth: "chunks ! i = take ?c (drop (i * ?c) xs)"
      unfolding chunks by (rule nth_slices)
    have "i * ?c < length xs"
    proof (cases "Suc i < length chunks")
      case True
      then have "i * ?c + ?c \<le> length xs" using full_slice [OF pos] len by simp
      then show ?thesis using pos by simp
    next
      case False
      with i have "?m = Suc i" using len by simp
      then show ?thesis by (rule last_slice [OF pos])
    qed
    then show "0 < length (chunks ! i) \<and> length (chunks ! i) \<le> ?c"
      using pos by (simp add: nth)
  qed
qed

subsection \<open>Statements on the working copy\<close>

lemma map_of_update_table:
  "map_of (update_table name f tbls) n =
     (if n = name then map_option f (map_of tbls name) else map_of tbls n)"
  by (induction tbls) (auto simp: update_table_def)

lemma map_fst_update_table [simp]: "map fst (update_table name f tbls) = map fst tbls"
  by (induction tbls) (auto simp: update_table_def)

lemma apply_insert_row_count:
  assumes "apply_stmt ok (InsertInto name cols r) tbls = Inr tbls'"
  shows "row_count name tbls' = row_count name tbls + 1"
  using assms
  by (auto simp: row_count_def map_of_update_table split: option.splits if_splits)

lemma execute_insert:
  assumes "execute conn (InsertInto name cols r) s = (Inr (), s')"
  shows "row_count name (working s') = row_count name (working s) + 1"
    and "committed s' = committed s" and "row_ok s' = row_ok s" and "reachable s' = reachable s"
proof -
  from assms obtain tbls where a: "apply_stmt (row_ok s) (InsertInto name cols r) (working s) = Inr tbls"
    and s': "s' = s\<lparr>txn := Some tbls, events := events s @ [Executed conn (InsertInto name cols r)]\<rparr>"
    by (auto simp: execute_def split: sum.splits)
  from apply_insert_row_count [OF a] s'
  show "row_count name (working s') = row_count name (working s) + 1"
    by (simp add: working_def)
  show "committed s' = committed s" "row_ok s' = row_ok s" "reachable s' = reachable s"
    using s' by simp_all
qed

lemma mapE_mogrify:
  assumes "mapE (mogrify target cols) page = Inr sqls"
  shows "length sqls = length page \<and> (\<forall>st \<in> set sqls. \<exists>r. st = InsertInto target cols r)"
  using assms
proof (induction page arbitrary: sqls)
  case Nil
  then show ?case by simp
next
  case (Cons a page)
  then show ?case
    by (auto simp: mogrify_def split: sum.splits if_splits)
qed

lemma run_stmts_inserts:
  assumes "\<forall>st \<in> set sqls. \<exists>r. st = InsertInto target cols r"
    and "run_stmts conn sqls s = (Inr (), s')"
  shows "row_count target (working s') = row_count target (working s) + length sqls \<and>
         committed s' = committed s \<and> row_ok s' = row_ok s \<and> reachable s' = reachable s"
  using assms
proof (induction sqls arbitrary: s)
  case Nil
  then show ?case by (simp add: ret_def)
next
  case (Cons st sqls)
  from Cons.prems(1) obtain r where st: "st = InsertInto target cols r" by auto
  from Cons.prems(2) obtain s1 where e: "execute conn st s = (Inr (), s1)"
    and rest: "run_stmts conn sqls s1 = (Inr (), s')"
    by (auto elim: andthen_Inr)
  from Cons.IH [OF _ rest] Cons.prems(1) execute_insert [OF e [unfolded st]]
  show ?case by simp
qed

lemma run_pages_inserts:
  assumes "run_pages conn target cols pages s = (Inr (), s')"
  shows "row_count target (working s') = row_count target (working s) + length (concat pages) \<and>
         committed s' = committed s \<and> row_ok s' = row_ok s \<and> reachable s' = reachable s"
  using assms
proof (induction pages arbitrary: s)
  case Nil
  then show ?case by (simp add: ret_def)
next
  case (Cons page pages)
  from Cons.prems obtain sqls s0 where m: "lift (mapE (mogrify target cols) page) s = (Inr sqls, s0)"
    and rest: "andthen (run_stmts conn sqls) (\<lambda>_. run_pages conn target cols pages) s0 = (Inr (), s')"
    by (auto elim: andthen_Inr)
  from m have s0: "s0 = s" and mm: "mapE (mogrify target cols) page = Inr sqls"
    by (auto simp: lift_def)
  from rest obtain s1 where r1: "run_stmts conn sqls s0 = (Inr (), s1)"
    and r2: "run_pages conn target cols pages s1 = (Inr (), s')"
    by (auto elim: andthen_Inr)
  from mapE_mogrify [OF mm] have len: "length sqls = length page"
    and ins: "\<forall>st \<in> set sqls. \<exists>r. st = InsertInto target cols r" by simp_all
  from run_stmts_inserts [OF ins r1] Cons.IH [OF r2] s0 len
  show ?case by simp
qed

lemma execute_batch_inserts:
  assumes "execute_batch conn target cols argslist page_size s = (Inr (), s')"
  shows "row_count target (working s') = row_count target (working s) + length argslist \<and>
         committed s' = committed s \<and> row_ok s' = row_ok s \<and> reachable s' = reachable s"
proof -
  from assms obtain n s0 where n: "lift (as_index page_size) s = (Inr n, s0)"
    and rest: "(if n \<le> 0 then raise ProgrammingError
                else run_pages conn target cols
                       (map (\<lambda>i. slice argslist i (i + nat n)) (py_range (length argslist) (nat n)))) s0
               = (Inr (), s')"
    unfolding execute_batch_def by (auto elim: andthen_Inr)
  from n have s0: "s0 = s" by (simp add: lift_def)
  from rest have pos: "0 < n" by (auto simp: raise_def split: if_splits)
  with rest s0 have "run_pages conn target cols
      (map (\<lambda>i. slice argslist i (i + nat n)) (py_range (length argslist) (nat n))) s = (Inr (), s')"
    by simp
  from run_pages_inserts [OF this] pos show ?thesis
    by (simp add: concat_slices)
qed


lemma catch_cases:
  assumes "catch m h s = (r, s')"
  obtains (ok) x where "m s = (Inr x, s')" "r = Inr x"
        | (handled) e s1 where "m s = (Inl e, s1)" "h e s1 = (r, s')"
  using assms by (auto simp: catch_def split: prod.splits sum.splits)

lemma getconn_Inr:
  assumes "getconn s = (Inr conn, s')"
  shows "committed s' = committed s" and "txn s' = None"
  using assms by (auto simp: getconn_def split: if_splits)

lemma connect_Inr:
  assumes "connect db_config s = (Inr conn, s')"
  shows "committed s' = committed s" and "txn s' = None"
  using assms by (auto simp: connect_def split: if_splits pyval.splits)

lemma batch_then_commit:
  assumes t: "txn s = None"
    and e: "execute_batch conn target cols argslist page_size s = (Inr (), s1)"
    and c: "commit conn s1 = (Inr (), s2)"
  shows "row_count target (committed s2) = row_count target (committed s) + length argslist"
proof -
  from c have "committed s2 = working s1" by (auto simp: commit_def)
  moreover from t have "working s = committed s" by (simp add: working_def)
  ultimately show ?thesis using execute_batch_inserts [OF e] by simp
qed

lemma insert_chunk_Inr:
  assumes "insert_chunk chunk target thread_id s = (Inr n, s')"
  shows "n = length chunk \<and>
         row_count target (committed s') = row_count target (committed s) + length chunk"
proof (cases chunk)
  case Nil
  with assms show ?thesis by (simp add: insert_chunk_def ret_def)
next
  case (Cons first rest)
  let ?body = "\<lambda>conn batch_size.
      catch (andthen (execute_batch conn target (map fst first) chunk batch_size) (\<lambda>_.
             andthen (commit conn) (\<lambda>_. ret (length chunk))))
            (\<lambda>e. andthen (rollback conn) (\<lambda>_. raise e))"
  from assms Cons obtain batch_size sa where
    bs: "get_batch_size s = (Inr batch_size, sa)" and
    gc: "ConnectionPoolManager_get_connection (\<lambda>conn. ?body conn batch_size) sa = (Inr n, s')"
    by (auto simp: insert_chunk_def elim: andthen_Inr)
  from gc obtain sb conn sc where
    ip: "initialize_pool sa = (Inr (), sb)" and g: "getconn sb = (Inr conn, sc)" and
    rest: "(case ?body conn batch_size sc of
              (Inl e, s') \<Rightarrow> andthen (rollback conn) (\<lambda>_. andthen (putconn conn) (\<lambda>_. raise e)) s'
            | (Inr x, s') \<Rightarrow> andthen (putconn conn) (\<lambda>_. ret x) s') = (Inr n, s')"
    unfolding ConnectionPoolManager_get_connection_def by (auto elim!: andthen_Inr)
  from rest obtain sd where b: "?body conn batch_size sc = (Inr n, sd)"
    and s': "committed s' = committed sd"
    by (auto simp: andthen_def rollback_def putconn_def raise_def ret_def
          split: prod.splits sum.splits)
  from b have inner: "andthen (execute_batch conn target (map fst first) chunk batch_size) (\<lambda>_.
             andthen (commit conn) (\<lambda>_. ret (length chunk))) sc = (Inr n, sd)"
    by (cases rule: catch_cases) (auto simp: andthen_def rollback_def raise_def)
  then obtain se sf where e: "execute_batch conn target (map fst first) chunk batch_size sc = (Inr (), se)"
    and c: "commit conn se = (Inr (), sf)" and r: "ret (length chunk) sf = (Inr n, sd)"
    by (auto elim!: andthen_Inr)
  from r have n: "n = length chunk" and sd: "sd = sf" by (auto simp: ret_def)
  from get_batch_size_same_db [OF bs] initialize_pool_same_db [OF ip] getconn_Inr [OF g]
  have "committed sc = committed s" by (simp add: same_db_def)
  with batch_then_commit [OF getconn_Inr(2) [OF g] e c] n sd s'
  show ?thesis by simp
qed

lemma insert_raw_data_True:
  assumes "insert_raw_data room_list target s = (Inr True, s')" and "room_list \<noteq> []"
  shows "row_count target (committed s') = row_count target (committed s) + length room_list"
proof -
  from assms(2) obtain first rest where rl: "room_list = first # rest" by (cases room_list) auto
  let ?body = "\<lambda>conn.
       andthen get_batch_size (\<lambda>batch_size.
       andthen (execute_batch conn target (map fst first) room_list batch_size) (\<lambda>_.
       andthen (commit conn) (\<lambda>_.
       andthen (print (Inserted (length room_list))) (\<lambda>_. ret True))))"
  from assms(1) rl have "catch (DatabaseManager_get_connection ?body)
      (\<lambda>e. andthen (print (InsertFailed e)) (\<lambda>_. ret False)) s = (Inr True, s')"
    by (simp add: insert_raw_data_def)
  then have gc: "DatabaseManager_get_connection ?body s = (Inr True, s')"
    by (cases rule: catch_cases) (auto simp: andthen_def print_def ret_def)
  then obtain db_config sa conn sb where
    dc: "DatabaseManager_get_db_config s = (Inr db_config, sa)" and
    cn: "connect db_config sa = (Inr conn, sb)" and
    rest: "(case ?body conn sb of
              (Inl e, s') \<Rightarrow> andthen (rollback conn) (\<lambda>_. andthen (close conn) (\<lambda>_. raise e)) s'
            | (Inr x, s') \<Rightarrow> andthen (close conn) (\<lambda>_. ret x) s') = (Inr True, s')"
    unfolding DatabaseManager_get_connection_def by (auto elim!: andthen_Inr)
  from rest obtain sc where b: "?body conn sb = (Inr True, sc)"
    and s': "committed s' = committed sc"
    by (auto simp: andthen_def rollback_def close_def raise_def ret_def
          split: prod.splits sum.splits)
  from b obtain batch_size s1 s2 s3 s4 where
    bs: "get_batch_size sb = (Inr batch_size, s1)" and
    e: "execute_batch conn target (map fst first) room_list batch_size s1 = (Inr (), s2)" and
    c: "commit conn s2 = (Inr (), s3)" and
    p: "print (Inserted (length room_list)) s3 = (Inr (), s4)" and
    r: "ret True s4 = (Inr True, sc)"
    by (auto elim!: andthen_Inr)
  from p r have sc: "committed sc = committed s3" by (auto simp: print_def ret_def)
  from get_batch_size_same_db [OF bs] connect_Inr [OF cn]
  have t: "txn s1 = None" and c1: "committed s1 = committed sa" by (simp_all add: same_db_def)
  from DatabaseManager_get_db_config_same_db [OF dc] c1
  have "committed s1 = committed s" by (simp add: same_db_def)
  with batch_then_commit [OF t e c] sc s' show ?thesis by simp
qed


lemma succeeded_simps [simp]: "succeeded (Inr x)" "\<not> succeeded (Inl e)"
  by (simp_all add: succeeded_def)

subsection \<open>The tasks and the loop over their futures\<close>

lemma run_tasks_fst:
  "run_tasks target ts s = (rs, s') \<Longrightarrow> map fst rs = map fst ts"
  by (induction ts arbitrary: s rs) (auto split: prod.splits)

lemma run_tasks_succeeded:
  assumes "run_tasks target ts s = (rs, s')" and "list_all (\<lambda>(i, r). succeeded r) rs"
  shows "map snd rs = map (\<lambda>(i, chunk). Inr (length chunk)) ts \<and>
         row_count target (committed s') =
           row_count target (committed s) + sum_list (map (\<lambda>(i, chunk). length chunk) ts)"
  using assms
proof (induction ts arbitrary: s rs s')
  case Nil
  then show ?case by simp
next
  case (Cons t ts)
  obtain i chunk where t: "t = (i, chunk)" by (cases t)
  obtain r s1 where ic: "insert_chunk chunk target i s = (r, s1)"
    by (cases "insert_chunk chunk target i s")
  obtain rs1 s2 where rt: "run_tasks target ts s1 = (rs1, s2)"
    by (cases "run_tasks target ts s1")
  from Cons.prems(1) t ic rt have rs: "rs = (i, r) # rs1" and s': "s' = s2" by simp_all
  from Cons.prems(2) rs have ok: "succeeded r" and oks: "list_all (\<lambda>(i, r). succeeded r) rs1"
    by simp_all
  from ok obtain n where r: "r = Inr n" by (cases r) simp_all
  from insert_chunk_Inr [OF ic [unfolded r]] Cons.IH [OF rt oks] rs s' r t
  show ?case by simp
qed

lemma completed_loop_succeeded:
  "map snd rs = map Inr ns \<Longrightarrow>
     completed_loop target rs acc s =
       (Inr True, s\<lparr>printed := printed s @ [ThreadedDone (acc + sum_list ns) target]\<rparr>)"
proof (induction rs arbitrary: ns acc)
  case Nil
  then show ?case by (simp add: andthen_def print_def ret_def)
next
  case (Cons a rs)
  then obtain n ns' where ns: "ns = n # ns'" by (cases ns) auto
  obtain i r where a: "a = (i, r)" by (cases a)
  from Cons.prems ns a have r: "r = Inr n" and rest: "map snd rs = map Inr ns'" by simp_all
  from Cons.IH [OF rest, of "acc + n"] ns a r show ?case by (simp add: add.assoc)
qed

lemma completed_loop_result:
  "\<exists>s'. completed_loop target rs acc s = (Inr (list_all (\<lambda>(i, r). succeeded r) rs), s') \<and>
        same_db s s'"
proof (induction rs arbitrary: acc)
  case Nil
  show ?case by (simp add: andthen_def print_def ret_def same_db_def)
next
  case (Cons a rs)
  obtain i r where a: "a = (i, r)" by (cases a)
  show ?case
  proof (cases r)
    case (Inl e)
    with a show ?thesis by (simp add: andthen_def print_def ret_def same_db_def)
  next
    case (Inr n)
    with a Cons.IH [of "acc + n"] show ?thesis by simp
  qed
qed

lemma schedule_sum:
  "sum_list (map f (schedule picks ts)) = (sum_list (map f ts) :: nat)"
proof (induction picks arbitrary: ts)
  case Nil
  show ?case by simp
next
  case (Cons p picks)
  show ?case
  proof (cases "ts = []")
    case True
    then show ?thesis by simp
  next
    case False
    let ?i = "p mod length ts"
    from False have i: "?i < length ts" by simp
    have "sum_list (map f ts) = sum_list (map f (take ?i ts @ ts ! ?i # drop (Suc ?i) ts))"
      by (simp only: id_take_nth_drop [OF i, symmetric])
    also have "\<dots> = f (ts ! ?i) + sum_list (map f (take ?i ts @ drop (Suc ?i) ts))"
      by simp
    finally show ?thesis using False Cons.IH [of "take ?i ts @ drop (Suc ?i) ts"]
      by (simp add: Let_def)
  qed
qed

lemma enumerate_lengths:
  "sum_list (map (\<lambda>(i, chunk). length chunk) (List.enumerate 0 chunks)) = length (concat chunks)"
proof -
  have "map (\<lambda>(i, chunk). length chunk) (List.enumerate 0 chunks) =
        map (length \<circ> snd) (List.enumerate 0 chunks)"
    by (simp add: case_prod_unfold comp_def)
  also have "\<dots> = map length (map snd (List.enumerate 0 chunks))"
    by (simp only: map_map)
  also have "\<dots> = map length chunks"
    by simp
  finally show ?thesis by (simp add: length_concat)
qed

lemma threaded_try_run:
  assumes "ThreadPoolExecutor max_workers = Inr ()"
    and "run_tasks target (schedule picks (List.enumerate 0 chunks)) s = (rs, s1)"
  shows "threaded_try max_workers chunks target picks s = completed_loop target rs 0 s1"
  using assms completed_loop_result [of target rs 0 s1]
  by (auto simp: threaded_try_def catch_def andthen_def lift_def)

lemma threaded_try_refused:
  assumes "ThreadPoolExecutor max_workers = Inl e"
  shows "threaded_try max_workers chunks target picks s =
           (Inr False, s\<lparr>printed := printed s @ [ThreadedFailed e]\<rparr>)"
  using assms
  by (simp add: threaded_try_def catch_def andthen_def lift_def print_def ret_def)


subsection \<open>The threaded insert\<close>

lemma insert_raw_data_threaded_run:
  assumes "room_list \<noteq> []"
    and "get_threading_config s = (Inr tc, s0)"
    and "subscript tc (PStr ''max_workers'') = Inr max_workers"
    and "subscript tc (PStr ''chunk_size'') = Inr chunk_size"
    and "chunk_data room_list chunk_size = Inr chunks"
  shows "insert_raw_data_threaded room_list target picks s =
           threaded_try max_workers chunks target picks
             (s0\<lparr>printed := printed s0 @
                     [ThreadedStart (length room_list) (length chunks) max_workers]\<rparr>)"
  using assms
  by (simp add: insert_raw_data_threaded_def andthen_def lift_def print_def)

lemma ThreadPoolExecutor_accepts:
  "ThreadPoolExecutor (PInt w) = Inr () \<longleftrightarrow> 0 < w"
  by (simp add: ThreadPoolExecutor_def as_index_def bindE_def)

text \<open>
  C1. For a positive chunk size \<open>C\<close>, \<^verbatim>\<open>_chunk_data\<close> returns chunks whose concatenation is
  the input list; every chunk but the last has exactly \<open>C\<close> records and every chunk has
  between 1 and \<open>C\<close>. In a run of \<^verbatim>\<open>insert_raw_data_threaded\<close> on a non-empty list, with
  any worker count the executor accepts and any order of completion, when the future of
  every chunk holds a count and no exception, the function returns \<^verbatim>\<open>True\<close> and the
  total it prints, the sum of those counts, is the number of records.
\<close>

theorem chunked_insert_total:
  assumes "0 < C" and "chunk_data room_list (PInt C) = Inr chunks"
  shows "concat chunks = room_list \<and>
         (\<forall>i. Suc i < length chunks \<longrightarrow> length (chunks ! i) = nat C) \<and>
         (\<forall>i < length chunks. 0 < length (chunks ! i) \<and> length (chunks ! i) \<le> nat C) \<and>
         (\<forall>s tc s0 W picks rs s1.
            room_list \<noteq> [] \<and>
            get_threading_config s = (Inr tc, s0) \<and>
            subscript tc (PStr ''max_workers'') = Inr W \<and>
            subscript tc (PStr ''chunk_size'') = Inr (PInt C) \<and>
            ThreadPoolExecutor W = Inr () \<and>
            run_tasks target (schedule picks (List.enumerate 0 chunks))
              (s0\<lparr>printed := printed s0 @
                      [ThreadedStart (length room_list) (length chunks) W]\<rparr>) = (rs, s1) \<and>
            list_all (\<lambda>(i, r). succeeded r) rs \<longrightarrow>
            insert_raw_data_threaded room_list target picks s =
              (Inr True, s1\<lparr>printed := printed s1 @ [ThreadedDone (length room_list) target]\<rparr>))"
proof -
  have idx: "as_index (PInt C) = Inr C" by (simp add: as_index_def)
  note ch = chunk_data_chunks [OF idx assms]
  show ?thesis
  proof (intro conjI allI impI)
    show "concat chunks = room_list" by (rule ch(1))
    show "\<And>i. Suc i < length chunks \<Longrightarrow> length (chunks ! i) = nat C"
      using ch(2) by simp
    show "\<And>i. i < length chunks \<Longrightarrow> 0 < length (chunks ! i)"
      using ch(3) by simp
    show "\<And>i. i < length chunks \<Longrightarrow> length (chunks ! i) \<le> nat C"
      using ch(3) by simp
  next
    fix s tc and s0 :: state and W picks rs s1
    let ?s0 = "s0\<lparr>printed := printed s0 @
                      [ThreadedStart (length room_list) (length chunks) W]\<rparr>"
    assume h: "room_list \<noteq> [] \<and>
            get_threading_config s = (Inr tc, s0) \<and>
            subscript tc (PStr ''max_workers'') = Inr W \<and>
            subscript tc (PStr ''chunk_size'') = Inr (PInt C) \<and>
            ThreadPoolExecutor W = Inr () \<and>
            run_tasks target (schedule picks (List.enumerate 0 chunks)) ?s0 = (rs, s1) \<and>
            list_all (\<lambda>(i, r). succeeded r) rs"
    then have rt: "run_tasks target (schedule picks (List.enumerate 0 chunks)) ?s0 = (rs, s1)"
      and ok: "list_all (\<lambda>(i, r). succeeded r) rs" and ex: "ThreadPoolExecutor W = Inr ()"
      by simp_all
    from h have "room_list \<noteq> []" "get_threading_config s = (Inr tc, s0)"
      "subscript tc (PStr ''max_workers'') = Inr W"
      "subscript tc (PStr ''chunk_size'') = Inr (PInt C)" by simp_all
    then have "insert_raw_data_threaded room_list target picks s =
        threaded_try W chunks target picks ?s0"
      using assms(2) by (rule insert_raw_data_threaded_run)
    also have "\<dots> = completed_loop target rs 0 s1"
      by (rule threaded_try_run [OF ex rt])
    also have "\<dots> = (Inr True, s1\<lparr>printed := printed s1 @
        [ThreadedDone (0 + sum_list (map (\<lambda>(i, chunk). length chunk)
           (schedule picks (List.enumerate 0 chunks)))) target]\<rparr>)"
    proof (rule completed_loop_succeeded)
      from run_tasks_succeeded [OF rt ok]
      show "map snd rs = map Inr (map (\<lambda>(i, chunk). length chunk)
                 (schedule picks (List.enumerate 0 chunks)))"
        by (simp add: case_prod_unfold comp_def)
    qed
    finally show "insert_raw_data_threaded room_list target picks s =
        (Inr True, s1\<lparr>printed := printed s1 @ [ThreadedDone (length room_list) target]\<rparr>)"
      by (simp add: schedule_sum enumerate_lengths ch(1))
  qed
qed









text \<open>
  C3, amended. When both insert functions, started from the same state on the same
  list, return \<^verbatim>\<open>True\<close>, and the configured chunk size is positive, the target table has
  the same number of rows after either: the rows it had and one more for each record.
\<close>

theorem same_row_count:
  assumes seq: "insert_raw_data room_list target s = (Inr True, s1)"
    and par: "insert_raw_data_threaded room_list target picks s = (Inr True, s2)"
    and tc: "get_threading_config s = (Inr tc, s0)"
    and cs: "subscript tc (PStr ''chunk_size'') = Inr chunk_size"
    and idx: "as_index chunk_size = Inr C" and pos: "0 < C"
  shows "row_count target (committed s1) = row_count target (committed s2) \<and>
         row_count target (committed s2) = row_count target (committed s) + length room_list"
proof (cases "room_list = []")
  case True
  with seq par show ?thesis
    by (auto simp: insert_raw_data_def insert_raw_data_threaded_def andthen_def print_def ret_def)
next
  case False
  let ?chunks = "map (\<lambda>i. slice room_list i (i + nat C)) (py_range (length room_list) (nat C))"
  have cd: "chunk_data room_list chunk_size = Inr ?chunks"
    by (rule chunk_data_positive [OF idx pos])
  from par False tc cs obtain W where mw: "subscript tc (PStr ''max_workers'') = Inr W"
    by (cases "subscript tc (PStr ''max_workers'')")
       (auto simp: insert_raw_data_threaded_def andthen_def lift_def)
  let ?s0 = "s0\<lparr>printed := printed s0 @
                [ThreadedStart (length room_list) (length ?chunks) W]\<rparr>"
  from insert_raw_data_threaded_run [OF False tc mw cs cd, of target picks] par
  have tt: "threaded_try W ?chunks target picks ?s0 = (Inr True, s2)" by simp
  have ex: "ThreadPoolExecutor W = Inr ()"
  proof (cases "ThreadPoolExecutor W")
    case (Inl e)
    from threaded_try_refused [OF this, of ?chunks target picks ?s0] tt show ?thesis by simp
  next
    case (Inr u)
    then show ?thesis by simp
  qed
  obtain rs sr where rt: "run_tasks target (schedule picks (List.enumerate 0 ?chunks)) ?s0 = (rs, sr)"
    by (cases "run_tasks target (schedule picks (List.enumerate 0 ?chunks)) ?s0")
  from threaded_try_run [OF ex rt] tt completed_loop_result [of target rs 0 sr]
  have ok: "list_all (\<lambda>(i, r). succeeded r) rs" and db: "same_db sr s2" by auto
  from run_tasks_succeeded [OF rt ok]
  have "row_count target (committed sr) =
          row_count target (committed ?s0) + length (concat ?chunks)"
    by (simp add: schedule_sum enumerate_lengths)
  moreover have "concat ?chunks = room_list"
    using chunk_data_chunks(1) [OF idx pos cd] .
  moreover have "committed ?s0 = committed s"
    using get_threading_config_same_db [OF tc] by (simp add: same_db_def)
  moreover have "committed s2 = committed sr"
    using db by (simp add: same_db_def)
  ultimately have "row_count target (committed s2) =
      row_count target (committed s) + length room_list" by simp
  with insert_raw_data_True [OF seq False] show ?thesis by simp
qed

text \<open>
  C3, as stated, fails for a negative chunk size: \<^verbatim>\<open>range(0, n, chunk_size)\<close> is empty,
  no chunk is submitted and \<^verbatim>\<open>insert_raw_data_threaded\<close> returns \<^verbatim>\<open>True\<close> with nothing
  inserted, while \<^verbatim>\<open>insert_raw_data\<close> returns \<^verbatim>\<open>True\<close> with every record inserted.
\<close>

theorem negative_chunk_size_inserts_nothing:
  "fst (insert_raw_data example_rooms (PStr ''agoda_rooms'')
          (example_ready (threading_config (PInt 4) (PInt (- 1))))) = Inr True \<and>
   fst (insert_raw_data_threaded example_rooms (PStr ''agoda_rooms'') []
          (example_ready (threading_config (PInt 4) (PInt (- 1))))) = Inr True \<and>
   row_count (PStr ''agoda_rooms'')
     (committed (snd (insert_raw_data example_rooms (PStr ''agoda_rooms'')
          (example_ready (threading_config (PInt 4) (PInt (- 1))))))) = 3 \<and>
   row_count (PStr ''agoda_rooms'')
     (committed (snd (insert_raw_data_threaded example_rooms (PStr ''agoda_rooms'') []
          (example_ready (threading_config (PInt 4) (PInt (- 1))))))) = 0"
  by code_simp


lemma pair_with_fst: "fst p = a \<Longrightarrow> p = (a, snd p)"
  by (simp add: prod_eq_iff)

theorem same_row_count_witness:
  "row_count (PStr ''agoda_rooms'')
     (committed (snd (insert_raw_data example_rooms (PStr ''agoda_rooms'')
        (example_ready (threading_config (PInt 4) (PInt 2)))))) =
   row_count (PStr ''agoda_rooms'')
     (committed (snd (insert_raw_data_threaded example_rooms (PStr ''agoda_rooms'') [1]
        (example_ready (threading_config (PInt 4) (PInt 2)))))) \<and>
   row_count (PStr ''agoda_rooms'')
     (committed (snd (insert_raw_data_threaded example_rooms (PStr ''agoda_rooms'') [1]
        (example_ready (threading_config (PInt 4) (PInt 2)))))) = 3"
proof -
  let ?S = "example_ready (threading_config (PInt 4) (PInt 2))"
  let ?tc = "PDict [(''max_workers'', PInt 4), (''chunk_size'', PInt 2)]"
  have "fst (insert_raw_data example_rooms (PStr ''agoda_rooms'') ?S) = Inr True"
    by code_simp
  then have seq: "insert_raw_data example_rooms (PStr ''agoda_rooms'') ?S =
      (Inr True, snd (insert_raw_data example_rooms (PStr ''agoda_rooms'') ?S))"
    by (rule pair_with_fst)
  have "fst (insert_raw_data_threaded example_rooms (PStr ''agoda_rooms'') [1] ?S) = Inr True"
    by code_simp
  then have par: "insert_raw_data_threaded example_rooms (PStr ''agoda_rooms'') [1] ?S =
      (Inr True, snd (insert_raw_data_threaded example_rooms (PStr ''agoda_rooms'') [1] ?S))"
    by (rule pair_with_fst)
  have "fst (get_threading_config ?S) = Inr ?tc"
    by code_simp
  then have tc: "get_threading_config ?S = (Inr ?tc, snd (get_threading_config ?S))"
    by (rule pair_with_fst)
  have cs: "subscript ?tc (PStr ''chunk_size'') = Inr (PInt 2)" by simp
  have idx: "as_index (PInt 2) = Inr 2" by (simp add: as_index_def)
  have start: "row_count (PStr ''agoda_rooms'') (committed ?S) + length example_rooms = 3"
    by code_simp
  from same_row_count [OF seq par tc cs idx] start show ?thesis by simp
qed

theorem chunked_insert_total_witness:
  "concat [[example_rooms ! 0, example_rooms ! 1], [example_rooms ! 2]] = example_rooms \<and>
   fst (insert_raw_data_threaded example_rooms (PStr ''agoda_rooms'') [1]
          (example_ready (threading_config (PInt 4) (PInt 2)))) = Inr True \<and>
   printed (snd (insert_raw_data_threaded example_rooms (PStr ''agoda_rooms'') [1]
          (example_ready (threading_config (PInt 4) (PInt 2))))) =
     [ThreadedStart 3 2 (PInt 4), ThreadedDone 3 (PStr ''agoda_rooms'')]"
proof -
  let ?S = "example_ready (threading_config (PInt 4) (PInt 2))"
  let ?tc = "PDict [(''max_workers'', PInt 4), (''chunk_size'', PInt 2)]"
  let ?chunks = "[[example_rooms ! 0, example_rooms ! 1], [example_rooms ! 2]]"
  let ?T = "snd (get_threading_config ?S)"
  let ?U = "?T\<lparr>printed := printed ?T @
      [ThreadedStart (length example_rooms) (length ?chunks) (PInt 4)]\<rparr>"
  let ?run = "run_tasks (PStr ''agoda_rooms'') (schedule [1] (List.enumerate 0 ?chunks)) ?U"
  have cd: "chunk_data example_rooms (PInt 2) = Inr ?chunks"
    by code_simp
  have "fst (get_threading_config ?S) = Inr ?tc"
    by code_simp
  then have tc: "get_threading_config ?S = (Inr ?tc, ?T)"
    by (rule pair_with_fst)
  have ne: "example_rooms \<noteq> []" by (simp add: example_rooms_def)
  have mw: "subscript ?tc (PStr ''max_workers'') = Inr (PInt 4)" by simp
  have cs: "subscript ?tc (PStr ''chunk_size'') = Inr (PInt 2)" by simp
  have ex: "ThreadPoolExecutor (PInt 4) = Inr ()"
    by (simp add: ThreadPoolExecutor_def as_index_def bindE_def)
  have rt: "?run = (fst ?run, snd ?run)" by simp
  have ok: "list_all (\<lambda>(i, r). succeeded r) (fst ?run)"
    by code_simp
  have pr: "printed (snd ?run) = [ThreadedStart 3 2 (PInt 4)]"
    by code_simp
  have len: "length example_rooms = 3" by (simp add: example_rooms_def)
  have pos: "(0::int) < 2" by simp
  note inst = chunked_insert_total [OF pos cd, of "PStr ''agoda_rooms''"]
  from inst have c: "concat ?chunks = example_rooms" by simp
  from inst have "insert_raw_data_threaded example_rooms (PStr ''agoda_rooms'') [1] ?S =
      (Inr True, (snd ?run)\<lparr>printed := printed (snd ?run) @
          [ThreadedDone (length example_rooms) (PStr ''agoda_rooms'')]\<rparr>)"
    using ne tc mw cs ex rt ok by blast
  with c pr len show ?thesis by simp
qed

text \<open>
  The chunks that were committed stay in the table when the function returns \<^verbatim>\<open>False\<close>.
\<close>

lemma committed_chunks_survive:
  "row_count (PStr ''agoda_rooms'')
     (committed (snd (insert_raw_data_threaded bad_rooms (PStr ''agoda_rooms'') [2, 0]
        (example_ready (threading_config (PInt 4) (PInt 1)))))) = 2"
  by code_simp


section \<open>Table creation\<close>

lemma update_table_comp:
  "update_table name f (update_table name g tbls) = update_table name (f \<circ> g) tbls"
  by (induction tbls) (auto simp: update_table_def)

lemma update_table_same:
  "(\<And>n t. (n, t) \<in> set tbls \<Longrightarrow> n = name \<Longrightarrow> f t = t) \<Longrightarrow> update_table name f tbls = tbls"
  by (induction tbls) (auto simp: update_table_def)

lemma update_table_entry:
  "(n, t) \<in> set (update_table name f tbls) \<Longrightarrow> n = name \<Longrightarrow> \<exists>t0. (n, t0) \<in> set tbls \<and> t = f t0"
  by (induction tbls) (auto simp: update_table_def split: if_splits)

lemma fold_comment:
  "columns (fold (\<lambda>c t. t\<lparr>described := List.insert c (described t)\<rparr>) cs t) = columns t \<and>
   set (described (fold (\<lambda>c t. t\<lparr>described := List.insert c (described t)\<rparr>) cs t)) =
     set (described t) \<union> set cs"
  by (induction cs arbitrary: t) auto

lemma execute_comment_Inr:
  assumes "execute conn (CommentOnColumn name c) s = (Inr (), s')"
  shows "s' = s\<lparr>txn := Some (update_table name
                   (\<lambda>t. t\<lparr>described := List.insert c (described t)\<rparr>) (working s)),
                 events := events s @ [Executed conn (CommentOnColumn name c)]\<rparr>"
    and "\<exists>t. map_of (working s) name = Some t \<and> c \<in> set (columns t)"
  using assms
  by (auto simp: execute_def split: sum.splits option.splits if_splits)

lemma run_comments_Inr:
  assumes "run_stmts conn (map (CommentOnColumn name) cs) s = (Inr (), s')"
    and "txn s = Some tbls"
  shows "s' = s\<lparr>txn := Some (update_table name
                   (fold (\<lambda>c t. t\<lparr>described := List.insert c (described t)\<rparr>) cs) tbls),
                 events := events s @ map (\<lambda>c. Executed conn (CommentOnColumn name c)) cs\<rparr> \<and>
         (\<forall>c \<in> set cs. \<exists>t. map_of tbls name = Some t \<and> c \<in> set (columns t))"
  using assms
proof (induction cs arbitrary: s tbls)
  case Nil
  have "update_table name id tbls = tbls" by (rule update_table_same) simp
  moreover from Nil have "s' = s" by (simp add: ret_def)
  ultimately show ?case using Nil(2) by (cases s) (simp add: id_def)
next
  case (Cons c cs)
  let ?ins = "\<lambda>c t. t\<lparr>described := List.insert c (described t)\<rparr>"
  from Cons.prems(1) obtain s1 where e: "execute conn (CommentOnColumn name c) s = (Inr (), s1)"
    and rest: "run_stmts conn (map (CommentOnColumn name) cs) s1 = (Inr (), s')"
    by (auto elim: andthen_Inr)
  from Cons.prems(2) have w: "working s = tbls" by (simp add: working_def)
  note ex = execute_comment_Inr [OF e, unfolded w]
  from ex(1) have t1: "txn s1 = Some (update_table name (?ins c) tbls)" by simp
  note ih = Cons.IH [OF rest t1]
  from ex(2) obtain t where t: "map_of tbls name = Some t" "c \<in> set (columns t)" by blast
  have cols: "\<forall>c' \<in> set cs. \<exists>t. map_of tbls name = Some t \<and> c' \<in> set (columns t)"
  proof
    fix c' assume "c' \<in> set cs"
    with ih obtain t1 where "map_of (update_table name (?ins c) tbls) name = Some t1"
      "c' \<in> set (columns t1)" by blast
    with t show "\<exists>t. map_of tbls name = Some t \<and> c' \<in> set (columns t)"
      by (auto simp: map_of_update_table)
  qed
  from ih ex(1) have "s' = s\<lparr>txn := Some (update_table name (fold ?ins (c # cs)) tbls),
      events := events s @ map (\<lambda>c. Executed conn (CommentOnColumn name c)) (c # cs)\<rparr>"
    by (simp add: update_table_comp)
  with t cols show ?case by (auto simp: comp_def)
qed

lemma comment_again:
  assumes "map_of tbls name = Some t" and "c \<in> set (columns t)"
    and "\<And>n t'. (n, t') \<in> set tbls \<Longrightarrow> n = name \<Longrightarrow> c \<in> set (described t')"
  shows "apply_stmt ok (CommentOnColumn name c) tbls = Inr tbls"
proof -
  have "update_table name (\<lambda>t. t\<lparr>described := List.insert c (described t)\<rparr>) tbls = tbls"
    by (rule update_table_same) (simp add: assms(3) List.insert_def)
  with assms(1,2) show ?thesis by simp
qed

lemma run_comments_again:
  assumes "txn s = Some tbls" and "map_of tbls name = Some t" and "set cs \<subseteq> set (columns t)"
    and "\<And>n t' c. (n, t') \<in> set tbls \<Longrightarrow> n = name \<Longrightarrow> c \<in> set cs \<Longrightarrow> c \<in> set (described t')"
  shows "run_stmts conn (map (CommentOnColumn name) cs) s =
           (Inr (), s\<lparr>txn := Some tbls,
                      events := events s @ map (\<lambda>c. Executed conn (CommentOnColumn name c)) cs\<rparr>)"
  using assms
proof (induction cs arbitrary: s)
  case Nil
  then show ?case by (cases s) (simp add: ret_def)
next
  case (Cons c cs)
  from Cons.prems have a: "apply_stmt (row_ok s) (CommentOnColumn name c) tbls = Inr tbls"
    by (intro comment_again [of tbls name t]) auto
  let ?s1 = "s\<lparr>txn := Some tbls, events := events s @ [Executed conn (CommentOnColumn name c)]\<rparr>"
  from Cons.prems(1) a have e: "execute conn (CommentOnColumn name c) s = (Inr (), ?s1)"
    by (simp add: execute_def working_def)
  have "run_stmts conn (map (CommentOnColumn name) cs) ?s1 =
      (Inr (), ?s1\<lparr>txn := Some tbls,
          events := events ?s1 @ map (\<lambda>c. Executed conn (CommentOnColumn name c)) cs\<rparr>)"
    using Cons.prems by (intro Cons.IH) auto
  with e show ?case by (simp add: andthenI)
qed


lemma loader_step_refl: "loader_step s s"
  by (simp add: loader_step_def)

lemma loader_step_trans: "loader_step a b \<Longrightarrow> loader_step b c \<Longrightarrow> loader_step a c"
  unfolding loader_step_def
proof -
  assume b: "b = a\<lparr>reads := reads b, loader_cache := loader_cache b\<rparr>"
    and c: "c = b\<lparr>reads := reads c, loader_cache := loader_cache c\<rparr>"
  have "c = (a\<lparr>reads := reads b, loader_cache := loader_cache b\<rparr>)
              \<lparr>reads := reads c, loader_cache := loader_cache c\<rparr>"
    by (subst c, subst b) simp
  then show "c = a\<lparr>reads := reads c, loader_cache := loader_cache c\<rparr>" by simp
qed

lemma andthen_loader_step:
  assumes "andthen m f s = (r, s')"
    and "\<And>r1 s1. m s = (r1, s1) \<Longrightarrow> loader_step s s1"
    and "\<And>x s1. m s = (Inr x, s1) \<Longrightarrow> f x s1 = (r, s') \<Longrightarrow> loader_step s1 s'"
  shows "loader_step s s'"
  using assms(1)
proof (cases rule: andthen_cases)
  case (fail e)
  then show ?thesis using assms(2) by simp
next
  case (ok x s1)
  then show ?thesis using assms(2,3) loader_step_trans by blast
qed

lemma get_config_loader_step: "get_config b s = (r, s') \<Longrightarrow> loader_step s s'"
  by (auto simp: get_config_def load_yaml_config_def loader_step_def
        split: if_splits file_state.splits)

lemma lift_loader_step: "lift v s = (r, s') \<Longrightarrow> loader_step s s'"
  by (auto simp: lift_def loader_step_refl)

lemma ret_loader_step: "ret v s = (r, s') \<Longrightarrow> loader_step s s'"
  by (auto simp: ret_def loader_step_refl)

lemma get_current_environment_loader_step:
  "get_current_environment s = (r, s') \<Longrightarrow> loader_step s s'"
  unfolding get_current_environment_def
  by (erule andthen_loader_step) (auto dest: get_config_loader_step lift_loader_step)

lemma load_config_loader_step: "load_config env s = (r, s') \<Longrightarrow> loader_step s s'"
  unfolding load_config_eq get_database_config_def
  apply (erule andthen_loader_step)
   apply (erule get_config_loader_step)
  apply (erule andthen_loader_step)
   apply (auto dest: get_current_environment_loader_step ret_loader_step lift_loader_step
             split: if_splits)
  done

lemma DatabaseManager_get_db_config_Inr:
  assumes "DatabaseManager_get_db_config s = (Inr dbc, sb)"
  shows "dbm_db_config sb = dbc" and "dbc \<noteq> PNone"
    and "sb = s\<lparr>reads := reads sb, loader_cache := loader_cache sb, dbm_db_config := dbc\<rparr>"
proof -
  have "dbm_db_config sb = dbc \<and> dbc \<noteq> PNone \<and>
        sb = s\<lparr>reads := reads sb, loader_cache := loader_cache sb, dbm_db_config := dbc\<rparr>"
  proof (cases "dbm_db_config s = PNone")
    case False
    with assms show ?thesis by (auto simp: DatabaseManager_get_db_config_def)
  next
    case True
    with assms obtain cfg s1 where l: "load_config PNone s = (Inr cfg, s1)"
      and rest: "andthen (\<lambda>s. (Inr (), s\<lparr>dbm_db_config := cfg\<rparr>)) (\<lambda>_.
             andthen (lift (subscript cfg (PStr ''host''))) (\<lambda>_.
             andthen (lift (subscript cfg (PStr ''port''))) (\<lambda>_. ret cfg))) s1 = (Inr dbc, sb)"
      by (auto simp: DatabaseManager_get_db_config_def elim: andthen_Inr)
    from rest have sb: "sb = s1\<lparr>dbm_db_config := cfg\<rparr>" and dbc: "dbc = cfg"
      and host: "\<exists>h. subscript cfg (PStr ''host'') = Inr h"
      by (auto simp: andthen_def lift_def ret_def split: sum.splits)
    from host have "cfg \<noteq> PNone" by auto
    moreover from load_config_loader_step [OF l]
    have "s1 = s\<lparr>reads := reads s1, loader_cache := loader_cache s1\<rparr>"
      by (simp add: loader_step_def)
    then have "s1\<lparr>dbm_db_config := cfg\<rparr> =
        s\<lparr>reads := reads s1, loader_cache := loader_cache s1, dbm_db_config := cfg\<rparr>"
      by (rule arg_cong [where f = "\<lambda>x. x\<lparr>dbm_db_config := cfg\<rparr>", THEN trans]) simp
    ultimately show ?thesis using sb dbc by simp
  qed
  then show "dbm_db_config sb = dbc" and "dbc \<noteq> PNone"
    and "sb = s\<lparr>reads := reads sb, loader_cache := loader_cache sb, dbm_db_config := dbc\<rparr>"
    by simp_all
qed

lemma DatabaseManager_get_db_config_cached:
  "dbm_db_config s \<noteq> PNone \<Longrightarrow> DatabaseManager_get_db_config s = (Inr (dbm_db_config s), s)"
  by (simp add: DatabaseManager_get_db_config_def)

lemma get_table_name_Inr:
  assumes "get_table_name s = (Inr name, sa)"
  shows "cm_cache sa \<noteq> PNone"
    and "sa = s\<lparr>reads := reads sa, cm_cache := cm_cache sa\<rparr>"
    and "\<And>s'. cm_cache s' = cm_cache sa \<Longrightarrow> get_table_name s' = (Inr name, s')"
proof -
  from assms obtain config where l: "ConfigManager_load_config s = (Inr config, sa)"
    and n: "bindE (subscript config (PStr ''database''))
              (\<lambda>d. subscript d (PStr ''table_name'')) = Inr name"
    by (auto simp: get_table_name_def lift_def elim: andthen_Inr)
  from n have c: "config \<noteq> PNone" by (auto simp: bindE_def)
  from l c have cache: "cm_cache sa = config"
    by (auto simp: ConfigManager_load_config_def split: if_splits file_state.splits)
  with c show "cm_cache sa \<noteq> PNone" by simp
  from l show "sa = s\<lparr>reads := reads sa, cm_cache := cm_cache sa\<rparr>"
    by (auto simp: ConfigManager_load_config_def split: if_splits file_state.splits)
  fix s' :: state assume "cm_cache s' = cm_cache sa"
  with cache c have "ConfigManager_load_config s' = (Inr config, s')"
    by (simp add: ConfigManager_load_config_def)
  with n show "get_table_name s' = (Inr name, s')"
    by (simp add: get_table_name_def andthen_def lift_def)
qed


text \<open>
  When the table is there, with the columns of the statement and a comment on each,
  and the server is reachable, \<^verbatim>\<open>create_table\<close> returns \<^verbatim>\<open>True\<close> and the tables are what
  they were.
\<close>

lemma create_table_again:
  assumes name: "(if table_name = PNone then get_table_name else ret table_name) s = (Inr name, s)"
    and dbc: "dbm_db_config s = PDict kw" and reach: "reachable s"
    and tbl: "map_of (committed s) name = Some t" "set table_columns \<subseteq> set (columns t)"
    and desc: "\<And>n t' c. (n, t') \<in> set (committed s) \<Longrightarrow> n = name \<Longrightarrow> c \<in> set table_columns \<Longrightarrow>
                 c \<in> set (described t')"
  shows "create_table table_name s =
     (Inr True,
      s\<lparr>committed := committed s, txn := None, next_conn := next_conn s + 1,
        events := events s @
          [Connected (next_conn s),
           Executed (next_conn s) (CreateTableIfNotExists name table_columns)] @
          map (\<lambda>c. Executed (next_conn s) (CommentOnColumn name c)) table_columns @
          [Committed (next_conn s), Closed (next_conn s)],
        printed := printed s @ [TableCreated name]\<rparr>)"
proof -
  let ?conn = "next_conn s"
  let ?T = "committed s"
  let ?sc = "s\<lparr>txn := None, next_conn := next_conn s + 1, events := events s @ [Connected ?conn]\<rparr>"
  let ?sd = "?sc\<lparr>txn := Some ?T,
      events := events ?sc @ [Executed ?conn (CreateTableIfNotExists name table_columns)]\<rparr>"
  let ?se = "?sd\<lparr>txn := Some ?T,
      events := events ?sd @ map (\<lambda>c. Executed ?conn (CommentOnColumn name c)) table_columns\<rparr>"
  let ?body = "\<lambda>conn.
            andthen (execute conn (CreateTableIfNotExists name table_columns)) (\<lambda>_.
            andthen (run_stmts conn (map (CommentOnColumn name) table_columns)) (\<lambda>_.
            andthen (commit conn) (\<lambda>_.
            andthen (print (TableCreated name)) (\<lambda>_. ret True))))"
  have g: "DatabaseManager_get_db_config s = (Inr (PDict kw), s)"
    using DatabaseManager_get_db_config_cached [of s] dbc by simp
  have c: "connect (PDict kw) s = (Inr ?conn, ?sc)"
    using reach by (simp add: connect_def)
  from tbl(1) have "name \<in> set (map fst ?T)"
    by (force dest: map_of_SomeD)
  then have e: "execute ?conn (CreateTableIfNotExists name table_columns) ?sc = (Inr (), ?sd)"
    by (simp add: execute_def working_def)
  have r: "run_stmts ?conn (map (CommentOnColumn name) table_columns) ?sd = (Inr (), ?se)"
    by (rule run_comments_again [OF _ tbl]) (simp_all add: desc)
  let ?sf = "?se\<lparr>committed := ?T, txn := None, events := events ?se @ [Committed ?conn],
                     printed := printed ?se @ [TableCreated name]\<rparr>"
  have "?body ?conn ?sc =
      andthen (run_stmts ?conn (map (CommentOnColumn name) table_columns)) (\<lambda>_.
        andthen (commit ?conn) (\<lambda>_.
        andthen (print (TableCreated name)) (\<lambda>_. ret True))) ?sd"
    by (rule andthenI [of "execute ?conn (CreateTableIfNotExists name table_columns)" ?sc "()" ?sd,
          OF e])
  also have "\<dots> = andthen (commit ?conn) (\<lambda>_.
        andthen (print (TableCreated name)) (\<lambda>_. ret True)) ?se"
    by (rule andthenI [of "run_stmts ?conn (map (CommentOnColumn name) table_columns)" ?sd "()" ?se,
          OF r])
  also have "\<dots> = (Inr True, ?sf)"
    by (simp add: andthen_def commit_def print_def ret_def working_def)
  finally have b: "?body ?conn ?sc = (Inr True, ?sf)" .
  have "DatabaseManager_get_connection ?body s =
      andthen (connect (PDict kw)) (\<lambda>conn s.
         case ?body conn s of
           (Inl e, s') \<Rightarrow> andthen (rollback conn) (\<lambda>_. andthen (close conn) (\<lambda>_. raise e)) s'
         | (Inr x, s') \<Rightarrow> andthen (close conn) (\<lambda>_. ret x) s') s"
    unfolding DatabaseManager_get_connection_def
    by (rule andthenI [of DatabaseManager_get_db_config s "PDict kw" s, OF g])
  also have "\<dots> = (case ?body ?conn ?sc of
           (Inl e, s') \<Rightarrow> andthen (rollback ?conn) (\<lambda>_. andthen (close ?conn) (\<lambda>_. raise e)) s'
         | (Inr x, s') \<Rightarrow> andthen (close ?conn) (\<lambda>_. ret x) s')"
    by (rule andthenI [of "connect (PDict kw)" s ?conn ?sc, OF c])
  also have "\<dots> = andthen (close ?conn) (\<lambda>_. ret True) ?sf"
    by (simp only: b prod.case sum.case)
  also have "\<dots> =
      (Inr True,
       s\<lparr>committed := committed s, txn := None, next_conn := next_conn s + 1,
        events := events s @
          [Connected (next_conn s),
           Executed (next_conn s) (CreateTableIfNotExists name table_columns)] @
          map (\<lambda>c. Executed (next_conn s) (CommentOnColumn name c)) table_columns @
          [Committed (next_conn s), Closed (next_conn s)],
        printed := printed s @ [TableCreated name]\<rparr>)"
    by (simp add: andthen_def close_def ret_def)
  finally have gc: "DatabaseManager_get_connection ?body s =
      (Inr True,
       s\<lparr>committed := committed s, txn := None, next_conn := next_conn s + 1,
        events := events s @
          [Connected (next_conn s),
           Executed (next_conn s) (CreateTableIfNotExists name table_columns)] @
          map (\<lambda>c. Executed (next_conn s) (CommentOnColumn name c)) table_columns @
          [Committed (next_conn s), Closed (next_conn s)],
        printed := printed s @ [TableCreated name]\<rparr>)" .
  have "create_table table_name s =
      catch (DatabaseManager_get_connection ?body)
        (\<lambda>e. andthen (print (TableFailed e)) (\<lambda>_. ret False)) s"
    unfolding create_table_def
    by (rule andthenI [of "if table_name = PNone then get_table_name else ret table_name"
          s name s, OF name])
  with gc show ?thesis by (simp only: catch_def prod.case sum.case)
qed


lemma execute_create:
  "execute conn (CreateTableIfNotExists name cols) s =
     (Inr (),
      s\<lparr>txn := Some (if name \<in> set (map fst (working s)) then working s
                       else working s @ [(name, \<lparr>columns = cols, described = [], rows = []\<rparr>)]),
        events := events s @ [Executed conn (CreateTableIfNotExists name cols)]\<rparr>)"
  by (simp add: execute_def)

lemma create_table_True:
  assumes "create_table table_name s = (Inr True, s1)"
  obtains name sa kw sb tbls where
    "(if table_name = PNone then get_table_name else ret table_name) s = (Inr name, sa)"
    "DatabaseManager_get_db_config sa = (Inr (PDict kw), sb)"
    "reachable sb"
    "tbls = (if name \<in> set (map fst (committed sb)) then committed sb
             else committed sb @ [(name, \<lparr>columns = table_columns, described = [], rows = []\<rparr>)])"
    "\<forall>c \<in> set table_columns. \<exists>t. map_of tbls name = Some t \<and> c \<in> set (columns t)"
    "s1 = sb\<lparr>committed := update_table name
                  (fold (\<lambda>c t. t\<lparr>described := List.insert c (described t)\<rparr>) table_columns) tbls,
               txn := None, next_conn := next_conn s1, events := events s1,
               printed := printed s1\<rparr>"
proof -
  let ?body = "\<lambda>name conn.
            andthen (execute conn (CreateTableIfNotExists name table_columns)) (\<lambda>_.
            andthen (run_stmts conn (map (CommentOnColumn name) table_columns)) (\<lambda>_.
            andthen (commit conn) (\<lambda>_.
            andthen (print (TableCreated name)) (\<lambda>_. ret True))))"
  from assms obtain name sa where
    name: "(if table_name = PNone then get_table_name else ret table_name) s = (Inr name, sa)"
    and c: "catch (DatabaseManager_get_connection (?body name))
              (\<lambda>e. andthen (print (TableFailed e)) (\<lambda>_. ret False)) sa = (Inr True, s1)"
    unfolding create_table_def by (erule andthen_Inr)
  from c have gc: "DatabaseManager_get_connection (?body name) sa = (Inr True, s1)"
    by (cases rule: catch_cases) (auto simp: andthen_def print_def ret_def)
  then obtain dbc sb conn sc where
    g: "DatabaseManager_get_db_config sa = (Inr dbc, sb)" and
    cn: "connect dbc sb = (Inr conn, sc)" and
    rest: "(case ?body name conn sc of
              (Inl e, s') \<Rightarrow> andthen (rollback conn) (\<lambda>_. andthen (close conn) (\<lambda>_. raise e)) s'
            | (Inr x, s') \<Rightarrow> andthen (close conn) (\<lambda>_. ret x) s') = (Inr True, s1)"
    unfolding DatabaseManager_get_connection_def by (auto elim!: andthen_Inr)
  from cn obtain kw where dbc: "dbc = PDict kw" and reach: "reachable sb"
    and sc: "sc = sb\<lparr>txn := None, next_conn := next_conn sb + 1,
                     events := events sb @ [Connected (next_conn sb)]\<rparr>"
    by (auto simp: connect_def split: pyval.splits if_splits)
  from rest obtain sd where b: "?body name conn sc = (Inr True, sd)"
    and s1: "s1 = sd\<lparr>txn := None, events := events sd @ [Closed conn]\<rparr>"
    by (auto simp: andthen_def rollback_def close_def raise_def ret_def
          split: prod.splits sum.splits)
  from b obtain s2 s3 s4 s5 where
    e: "execute conn (CreateTableIfNotExists name table_columns) sc = (Inr (), s2)" and
    r: "run_stmts conn (map (CommentOnColumn name) table_columns) s2 = (Inr (), s3)" and
    cm: "commit conn s3 = (Inr (), s4)" and
    p: "print (TableCreated name) s4 = (Inr (), s5)" and
    rt: "ret True s5 = (Inr True, sd)"
    by (auto elim!: andthen_Inr)
  define tbls where "tbls = (if name \<in> set (map fst (committed sb)) then committed sb
             else committed sb @ [(name, \<lparr>columns = table_columns, described = [], rows = []\<rparr>)])"
  define tbls2 where "tbls2 = update_table name
      (fold (\<lambda>c t. t\<lparr>described := List.insert c (described t)\<rparr>) table_columns) tbls"
  have w: "working sc = committed sb" by (simp add: sc working_def)
  from e have "s2 = snd (execute conn (CreateTableIfNotExists name table_columns) sc)" by simp
  then have s2: "s2 = sc\<lparr>txn := Some tbls,
      events := events sc @ [Executed conn (CreateTableIfNotExists name table_columns)]\<rparr>"
    by (simp only: execute_create snd_conv w tbls_def)
  then have t2: "txn s2 = Some tbls" by simp
  note rc = run_comments_Inr [OF r t2]
  from rc have s3: "s3 = s2\<lparr>txn := Some tbls2,
      events := events s2 @ map (\<lambda>c. Executed conn (CommentOnColumn name c)) table_columns\<rparr>"
    by (simp add: tbls2_def)
  from cm have s4: "s4 = s3\<lparr>committed := working s3, txn := None,
      events := events s3 @ [Committed conn]\<rparr>"
    by (auto simp: commit_def)
  from p have s5: "s5 = s4\<lparr>printed := printed s4 @ [TableCreated name]\<rparr>"
    by (auto simp: print_def)
  from rt have sd: "sd = s5" by (auto simp: ret_def)
  have full: "s1 = sb\<lparr>committed := tbls2, txn := None, next_conn := next_conn sb + 1,
      events := events sb @ [Connected (next_conn sb),
          Executed conn (CreateTableIfNotExists name table_columns)] @
          map (\<lambda>c. Executed conn (CommentOnColumn name c)) table_columns @
          [Committed conn, Closed conn],
      printed := printed sb @ [TableCreated name]\<rparr>"
    by (simp add: s1 sd s5 s4 s3 s2 sc working_def)
  have "s1 = sb\<lparr>committed := tbls2, txn := None, next_conn := next_conn s1, events := events s1,
               printed := printed s1\<rparr>"
    by (simp add: full)
  with name g [unfolded dbc] reach rc tbls_def tbls2_def that show thesis by blast
qed


lemma distinct_one:
  "distinct xs \<Longrightarrow> x \<in> set xs \<Longrightarrow> length (filter (\<lambda>n. n = x) xs) = 1"
  by (induction xs) (auto simp: filter_empty_conv)

text \<open>
  C6. After a call of \<^verbatim>\<open>create_table\<close> that returned \<^verbatim>\<open>True\<close>, a second call with the same
  argument returns \<^verbatim>\<open>True\<close> too. It connects, executes the
  \<^verbatim>\<open>CREATE TABLE IF NOT EXISTS\<close> statement and the comments, commits and closes; the
  tables are the same after it as before it, and the table is among them, exactly once
  when the table names were distinct to begin with.
\<close>

theorem create_table_idempotent:
  assumes "create_table table_name s = (Inr True, s1)"
  shows "\<exists>name s2.
           create_table table_name s1 = (Inr True, s2) \<and>
           committed s2 = committed s1 \<and>
           (table_name \<noteq> PNone \<longrightarrow> name = table_name) \<and>
           events s2 = events s1 @
             [Connected (next_conn s1),
              Executed (next_conn s1) (CreateTableIfNotExists name table_columns)] @
             map (\<lambda>c. Executed (next_conn s1) (CommentOnColumn name c)) table_columns @
             [Committed (next_conn s1), Closed (next_conn s1)] \<and>
           name \<in> set (map fst (committed s2)) \<and>
           (distinct (map fst (committed s)) \<longrightarrow>
              length (filter (\<lambda>n. n = name) (map fst (committed s2))) = 1)"
proof -
  let ?G = "fold (\<lambda>c t. t\<lparr>described := List.insert c (described t)\<rparr>) table_columns"
  from assms obtain name sa kw sb tbls where
    name: "(if table_name = PNone then get_table_name else ret table_name) s = (Inr name, sa)" and
    g: "DatabaseManager_get_db_config sa = (Inr (PDict kw), sb)" and
    reach: "reachable sb" and
    tbls: "tbls = (if name \<in> set (map fst (committed sb)) then committed sb
             else committed sb @ [(name, \<lparr>columns = table_columns, described = [], rows = []\<rparr>)])" and
    cols: "\<forall>c \<in> set table_columns. \<exists>t. map_of tbls name = Some t \<and> c \<in> set (columns t)" and
    s1: "s1 = sb\<lparr>committed := update_table name ?G tbls,
               txn := None, next_conn := next_conn s1, events := events s1,
               printed := printed s1\<rparr>"
    by (rule create_table_True)
  note gi = DatabaseManager_get_db_config_Inr [OF g]
  have com: "committed s1 = update_table name ?G tbls" by (subst s1) simp
  have reach1: "reachable s1" using reach by (subst s1) simp
  have dbc1: "dbm_db_config s1 = PDict kw" using gi(1) by (subst s1) simp
  have cache1: "cm_cache s1 = cm_cache sa"
  proof -
    have "cm_cache s1 = cm_cache sb" by (subst s1) simp
    also have "\<dots> = cm_cache sa" by (subst gi(3)) simp
    finally show ?thesis .
  qed
  have name1: "(if table_name = PNone then get_table_name else ret table_name) s1 = (Inr name, s1)"
  proof (cases "table_name = PNone")
    case True
    with name have "get_table_name s = (Inr name, sa)" by simp
    from get_table_name_Inr(3) [OF this cache1] True show ?thesis by simp
  next
    case False
    with name show ?thesis by (simp add: ret_def)
  qed
  have "''id'' \<in> set table_columns" by (simp add: table_columns_def)
  with cols obtain t where t: "map_of tbls name = Some t" by blast
  with cols have tc: "set table_columns \<subseteq> set (columns t)" by auto
  have t1: "map_of (committed s1) name = Some (?G t)"
    by (simp add: com map_of_update_table t)
  have tc1: "set table_columns \<subseteq> set (columns (?G t))"
    using tc fold_comment [of table_columns t] by simp
  have desc: "c \<in> set (described t')"
    if "(n, t') \<in> set (committed s1)" "n = name" "c \<in> set table_columns" for n t' c
  proof -
    from that(1,2) obtain t0 where "t' = ?G t0"
      unfolding com by (auto dest: update_table_entry)
    with fold_comment [of table_columns t0] that(3) show ?thesis by simp
  qed
  note again = create_table_again [OF name1 dbc1 reach1 t1 tc1 desc]
  let ?s2 = "s1\<lparr>committed := committed s1, txn := None, next_conn := next_conn s1 + 1,
        events := events s1 @
          [Connected (next_conn s1),
           Executed (next_conn s1) (CreateTableIfNotExists name table_columns)] @
          map (\<lambda>c. Executed (next_conn s1) (CommentOnColumn name c)) table_columns @
          [Committed (next_conn s1), Closed (next_conn s1)],
        printed := printed s1 @ [TableCreated name]\<rparr>"
  have mem: "name \<in> set (map fst (committed s1))"
    using t1 by (force dest: map_of_SomeD)
  have one: "length (filter (\<lambda>n. n = name) (map fst (committed s1))) = 1"
    if d: "distinct (map fst (committed s))"
  proof -
    have "committed sa = committed s"
    proof (cases "table_name = PNone")
      case True
      with name get_table_name_same_db [of s "Inr name" sa] show ?thesis
        by (simp add: same_db_def)
    next
      case False
      with name show ?thesis by (simp add: ret_def)
    qed
    moreover have "committed sb = committed sa"
      using DatabaseManager_get_db_config_same_db [OF g] by (simp add: same_db_def)
    ultimately have "distinct (map fst (committed sb))" using d by simp
    then have "distinct (map fst tbls)" by (simp add: tbls)
    then have "distinct (map fst (committed s1))" by (simp add: com)
    then show ?thesis using mem by (rule distinct_one)
  qed
  have "create_table table_name s1 = (Inr True, ?s2) \<and>
        committed ?s2 = committed s1 \<and>
        (table_name \<noteq> PNone \<longrightarrow> name = table_name) \<and>
        events ?s2 = events s1 @
             [Connected (next_conn s1),
              Executed (next_conn s1) (CreateTableIfNotExists name table_columns)] @
             map (\<lambda>c. Executed (next_conn s1) (CommentOnColumn name c)) table_columns @
             [Committed (next_conn s1), Closed (next_conn s1)] \<and>
        name \<in> set (map fst (committed ?s2)) \<and>
        (distinct (map fst (committed s)) \<longrightarrow>
           length (filter (\<lambda>n. n = name) (map fst (committed ?s2))) = 1)"
    using again mem one name by (auto simp: ret_def)
  then show ?thesis by blast
qed


theorem create_table_idempotent_witness:
  "map fst (committed (snd (create_table PNone (example_state example_config)))) =
     [PStr ''agoda_rooms''] \<and>
   (\<exists>name s2.
      create_table PNone (snd (create_table PNone (example_state example_config))) = (Inr True, s2) \<and>
      committed s2 = committed (snd (create_table PNone (example_state example_config))) \<and>
      name \<in> set (map fst (committed s2)) \<and>
      length (filter (\<lambda>n. n = name) (map fst (committed s2))) = 1)"
proof -
  let ?S = "example_state example_config"
  have "fst (create_table PNone ?S) = Inr True"
    by code_simp
  then have first: "create_table PNone ?S = (Inr True, snd (create_table PNone ?S))"
    by (simp add: prod_eq_iff)
  have d: "distinct (map fst (committed ?S))"
    by (simp add: example_state_def)
  have names: "map fst (committed (snd (create_table PNone ?S))) = [PStr ''agoda_rooms'']"
    by code_simp
  from create_table_idempotent [OF first] d names show ?thesis by blast
qed


section \<open>Failures are reported\<close>




lemma catch_Inr:
  "m s = (Inr b, s') \<Longrightarrow> catch m h s = (Inr b, s')"
  by (simp add: catch_def)








end
